theory Spec2Isabelle
  imports Complex_Main "HOL-Library.Multiset" "HOL-Library.Sublist"
begin

section \<open>Python values\<close>

text \<open>
  The station records are what \<^verbatim>\<open>response.json()\<close> returns: dictionaries, lists,
  strings, numbers, booleans and \<^verbatim>\<open>None\<close>, nested at will. A dictionary is kept as
  an association list and read with \<open>map_of\<close>; a string is the list of its characters.

  A float is \<^verbatim>\<open>nan\<close>, an infinity with its sign, or a finite value
  \<open>(-1)^s * m * 2^e\<close> given by sign, mantissa and exponent (so that \<^verbatim>\<open>-0.0\<close> is a
  value of its own). Every IEEE double is of this form; comparison with an integer and
  formatting to a fixed number of decimals depend on the exact value only.
\<close>

datatype pyfloat = NaN | Infinity bool | Finite bool nat int

datatype pyval =
    PNone
  | PBool bool
  | PInt int
  | PFloat pyfloat
  | PStr string
  | PList "pyval list"
  | PDict "(string \<times> pyval) list"

datatype pyerror = AttributeError | TypeError | ValueError | OverflowError

definition and_then :: "pyerror + 'a \<Rightarrow> ('a \<Rightarrow> pyerror + 'b) \<Rightarrow> pyerror + 'b" where
  "and_then m f = (case m of Inl e \<Rightarrow> Inl e | Inr x \<Rightarrow> f x)"

text \<open>\<^verbatim>\<open>d.get(key, default)\<close>: only a dictionary has the method.\<close>

fun py_get :: "pyval \<Rightarrow> string \<Rightarrow> pyval \<Rightarrow> pyerror + pyval" where
  "py_get (PDict kvs) k dflt = Inr (case map_of kvs k of None \<Rightarrow> dflt | Some v \<Rightarrow> v)"
| "py_get _ k dflt = Inl AttributeError"

text \<open>Truth value of an object, as \<^verbatim>\<open>if x\<close> and \<^verbatim>\<open>x and y\<close> test it.\<close>

fun truthy :: "pyval \<Rightarrow> bool" where
  "truthy PNone = False"
| "truthy (PBool b) = b"
| "truthy (PInt n) = (n \<noteq> 0)"
| "truthy (PFloat NaN) = True"
| "truthy (PFloat (Infinity s)) = True"
| "truthy (PFloat (Finite s m e)) = (m \<noteq> 0)"
| "truthy (PStr s) = (s \<noteq> [])"
| "truthy (PList xs) = (xs \<noteq> [])"
| "truthy (PDict kvs) = (kvs \<noteq> [])"

text \<open>
  \<^verbatim>\<open>for x in v\<close>: a list yields its elements, a dictionary its keys, a string its
  characters as strings of length one; nothing else is iterable.
\<close>

fun py_iter :: "pyval \<Rightarrow> pyerror + pyval list" where
  "py_iter (PList xs) = Inr xs"
| "py_iter (PDict kvs) = Inr (map PStr (remdups (map fst kvs)))"
| "py_iter (PStr s) = Inr (map (\<lambda>c. PStr [c]) s)"
| "py_iter _ = Inl TypeError"

subsection \<open>Numbers\<close>

definition float_value :: "bool \<Rightarrow> nat \<Rightarrow> int \<Rightarrow> real" where
  "float_value s m e = (if s then - 1 else 1) * real m * 2 powi e"

text \<open>
  \<^verbatim>\<open>x < c\<close> for an integer literal \<open>c\<close>. Integers, booleans (an integer subtype:
  \<^verbatim>\<open>True\<close> is 1) and floats are compared by value, a \<^verbatim>\<open>nan\<close> is less than nothing;
  every other operand raises \<^verbatim>\<open>TypeError\<close>.
\<close>

fun py_lt :: "pyval \<Rightarrow> int \<Rightarrow> pyerror + bool" where
  "py_lt (PInt n) c = Inr (n < c)"
| "py_lt (PBool b) c = Inr ((if b then 1 else 0) < c)"
| "py_lt (PFloat NaN) c = Inr False"
| "py_lt (PFloat (Infinity s)) c = Inr s"
| "py_lt (PFloat (Finite s m e)) c = Inr (float_value s m e < of_int c)"
| "py_lt _ c = Inl TypeError"

text \<open>The number a value denotes, when it denotes a finite one.\<close>

fun num_value :: "pyval \<Rightarrow> real option" where
  "num_value (PInt n) = Some (of_int n)"
| "num_value (PBool b) = Some (if b then 1 else 0)"
| "num_value (PFloat (Finite s m e)) = Some (float_value s m e)"
| "num_value _ = None"

subsection \<open>Strings\<close>

text \<open>\<^verbatim>\<open>needle in s\<close> for two strings.\<close>

fun str_contains :: "string \<Rightarrow> string \<Rightarrow> bool" where
  "str_contains [] needle = (needle = [])"
| "str_contains (c # cs) needle =
     (take (length needle) (c # cs) = needle \<or> str_contains cs needle)"

fun str_nat :: "nat \<Rightarrow> string" where
  "str_nat n =
     (if n < 10 then [''0123456789'' ! n]
      else str_nat (n div 10) @ [''0123456789'' ! (n mod 10)])"

declare str_nat.simps [simp del]

definition str_int :: "int \<Rightarrow> string" where
  "str_int i = (if i < 0 then ''-'' @ str_nat (nat (- i)) else str_nat (nat i))"

text \<open>
  \<^verbatim>\<open>str(v)\<close>. For a float, a list and a dictionary the text is the interpreter's
  \<^verbatim>\<open>repr\<close>, which the development takes as the parameter \<open>rp\<close>: every result below
  holds for any such function.
\<close>

fun py_str :: "(pyval \<Rightarrow> string) \<Rightarrow> pyval \<Rightarrow> string" where
  "py_str rp (PStr s) = s"
| "py_str rp PNone = ''None''"
| "py_str rp (PBool b) = (if b then ''True'' else ''False'')"
| "py_str rp (PInt n) = str_int n"
| "py_str rp v = rp v"

section \<open>Ranking: \<^verbatim>\<open>recommend_stations\<close>\<close>

text \<open>One entry of the result: the dictionary with the keys station, score and distance.\<close>

record scored_station =
  station :: pyval
  score :: int
  distance :: pyval

text \<open>
  Lines 56 to 59: the distance bonus added to the running score.
  \<^verbatim>\<open>
  if distance < 5:
      score += 10
  elif distance < 10:
      score += 5
  \<close>
\<close>

definition score_distance :: "pyval \<Rightarrow> int \<Rightarrow> pyerror + int" where
  "score_distance dst sc =
     and_then (py_lt dst 5) (\<lambda>lt5.
       if lt5 then Inr (sc + 10)
       else and_then (py_lt dst 10) (\<lambda>lt10.
         if lt10 then Inr (sc + 5) else Inr sc))"

text \<open>
  Lines 63 to 66: the loop over the connections.
  \<^verbatim>\<open>
  for conn in connections:
      level = conn.get('Level', {})
      if level and 'Fast' in str(level.get('Title', '')):
          score += 8
  \<close>
\<close>

fun score_connections :: "(pyval \<Rightarrow> string) \<Rightarrow> pyval list \<Rightarrow> int \<Rightarrow> pyerror + int" where
  "score_connections rp [] sc = Inr sc"
| "score_connections rp (conn # conns) sc =
     and_then (py_get conn ''Level'' (PDict [])) (\<lambda>level.
       if truthy level then
         and_then (py_get level ''Title'' (PStr '''')) (\<lambda>title.
           if str_contains (py_str rp title) ''Fast''
           then score_connections rp conns (sc + 8)
           else score_connections rp conns sc)
       else score_connections rp conns sc)"

text \<open>Lines 52 to 76: the body of the loop over the stations, for one station.\<close>

definition score_station :: "(pyval \<Rightarrow> string) \<Rightarrow> pyval \<Rightarrow> pyerror + scored_station" where
  "score_station rp stn =
     and_then (py_get stn ''AddressInfo'' (PDict [])) (\<lambda>addr.
     and_then (py_get addr ''Distance'' (PInt 999)) (\<lambda>dst.
     and_then (score_distance dst 0) (\<lambda>sc1.
     and_then (py_get stn ''Connections'' (PList [])) (\<lambda>connections.
     and_then (py_iter connections) (\<lambda>conns.
     and_then (score_connections rp conns sc1) (\<lambda>sc2.
     and_then (py_get stn ''StatusType'' (PDict [])) (\<lambda>status.
     and_then (py_get status ''IsOperational'' PNone) (\<lambda>operational.
       Inr \<lparr>station = stn,
            score = (if truthy operational then sc2 + 5 else sc2),
            distance = dst\<rparr>))))))))"

text \<open>The loop over the stations: the first station that raises ends the call.\<close>

fun score_all ::
  "(pyval \<Rightarrow> string) \<Rightarrow> pyval list \<Rightarrow> scored_station list \<Rightarrow> pyerror + scored_station list"
where
  "score_all rp [] scored_stations = Inr scored_stations"
| "score_all rp (stn # stns) scored_stations =
     and_then (score_station rp stn) (\<lambda>entry.
       score_all rp stns (scored_stations @ [entry]))"

text \<open>
  \<^verbatim>\<open>list.sort(key=..., reverse=True)\<close>: the list is reversed, sorted in ascending
  order of the key by a stable sort, and reversed again.
\<close>

definition sort_reverse :: "('a \<Rightarrow> int) \<Rightarrow> 'a list \<Rightarrow> 'a list" where
  "sort_reverse key xs = rev (sort_key key (rev xs))"

definition recommend_stations ::
  "(pyval \<Rightarrow> string) \<Rightarrow> pyval list \<Rightarrow> string \<Rightarrow> pyerror + scored_station list"
where
  "recommend_stations rp stations preferred_type =
     and_then (score_all rp stations []) (\<lambda>scored_stations.
       Inr (sort_reverse score scored_stations))"

section \<open>Context for the chat prompt\<close>

subsection \<open>Formatting a number with \<^verbatim>\<open>.1f\<close>\<close>

text \<open>The integer nearest to \<open>a / b\<close>, a tie going to the even one.\<close>

definition round_half_even :: "nat \<Rightarrow> nat \<Rightarrow> nat" where
  "round_half_even a b =
     (let q = a div b; r = a mod b
      in if 2 * r < b then q
         else if b < 2 * r then q + 1
         else if even q then q else q + 1)"

fun bit_length :: "nat \<Rightarrow> nat" where
  "bit_length n = (if n = 0 then 0 else Suc (bit_length (n div 2)))"

declare bit_length.simps [simp del]

text \<open>
  \<^verbatim>\<open>float(n)\<close> for an integer: exact below \<open>2^53\<close>, rounded to 53 bits above, and
  \<^verbatim>\<open>OverflowError\<close> when the rounded value does not fit a double.
\<close>

definition float_of_int :: "int \<Rightarrow> pyerror + pyfloat" where
  "float_of_int n =
     (let a = nat \<bar>n\<bar>
      in if a < 2 ^ 53 then Inr (Finite (n < 0) a 0)
         else let sh = bit_length a - 53; q = round_half_even a (2 ^ sh)
              in if 2 ^ 1024 \<le> q * 2 ^ sh then Inl OverflowError
                 else Inr (Finite (n < 0) q (int sh)))"

text \<open>The magnitude \<open>m * 2^e\<close> in tenths, correctly rounded.\<close>

definition tenths :: "nat \<Rightarrow> int \<Rightarrow> nat" where
  "tenths m e =
     (if 0 \<le> e then m * 2 ^ nat e * 10 else round_half_even (m * 10) (2 ^ nat (- e)))"

fun format_float_1f :: "pyfloat \<Rightarrow> string" where
  "format_float_1f NaN = ''nan''"
| "format_float_1f (Infinity s) = (if s then ''-inf'' else ''inf'')"
| "format_float_1f (Finite s m e) =
     (if s then ''-'' else []) @ str_nat (tenths m e div 10) @ ''.''
       @ str_nat (tenths m e mod 10)"

text \<open>\<^verbatim>\<open>format(v, '.1f')\<close>, as the f-string applies it to the distance.\<close>

fun format_1f :: "pyval \<Rightarrow> pyerror + string" where
  "format_1f (PFloat f) = Inr (format_float_1f f)"
| "format_1f (PInt n) = and_then (float_of_int n) (\<lambda>f. Inr (format_float_1f f))"
| "format_1f (PBool b) = Inr (format_float_1f (Finite False (if b then 1 else 0) 0))"
| "format_1f (PStr s) = Inl ValueError"
| "format_1f _ = Inl TypeError"

subsection \<open>The context block built in \<^verbatim>\<open>main\<close>\<close>

text \<open>
  Line 154 to 156, the text one entry adds: the f-string evaluates and formats its fields
  from left to right.
  \<^verbatim>\<open>
  station = item['station']
  addr = station.get('AddressInfo', {})
  f"{i}. {addr.get('Title', 'Unknown')} - {item['distance']:.1f}km away\n"
  \<close>
\<close>

definition context_line :: "(pyval \<Rightarrow> string) \<Rightarrow> nat \<Rightarrow> scored_station \<Rightarrow> pyerror + string" where
  "context_line rp i item =
     and_then (py_get (station item) ''AddressInfo'' (PDict [])) (\<lambda>addr.
     and_then (py_get addr ''Title'' (PStr ''Unknown'')) (\<lambda>title.
     and_then (format_1f (distance item)) (\<lambda>km.
       Inr (str_nat i @ ''. '' @ py_str rp title @ '' - '' @ km @ ''km away\<newline>''))))"

text \<open>
  Lines 153 to 156: the loop \<^verbatim>\<open>for i, item in enumerate(top_stations, 1)\<close>, each
  round appending its line to \<^verbatim>\<open>context\<close>.
\<close>

fun context_loop ::
  "(pyval \<Rightarrow> string) \<Rightarrow> nat \<Rightarrow> scored_station list \<Rightarrow> string \<Rightarrow> pyerror + string"
where
  "context_loop rp i [] context = Inr context"
| "context_loop rp i (item # items) context =
     and_then (context_line rp i item) (\<lambda>line.
       context_loop rp (i + 1) items (context @ line))"

text \<open>
  Lines 149 to 152: the session may hold no recommendations yet (\<open>None\<close>), or an empty
  list; otherwise the first three entries follow a header line.
\<close>

definition build_context ::
  "(pyval \<Rightarrow> string) \<Rightarrow> scored_station list option \<Rightarrow> pyerror + string"
where
  "build_context rp recommendations =
     (case recommendations of
        None \<Rightarrow> Inr []
      | Some recs \<Rightarrow>
          if recs = [] then Inr []
          else context_loop rp 1 (take 3 recs) ''Top 3 recommended stations:\<newline>'')"

section \<open>The two outbound calls\<close>

text \<open>
  What a call into a library can raise: an exception whose class derives from
  \<^verbatim>\<open>Exception\<close>, with the text \<^verbatim>\<open>str(e)\<close>, or one that does not (a keyboard
  interrupt, a system exit), which \<^verbatim>\<open>except Exception\<close> lets through.
\<close>

datatype raised = Exception string | NonException string

subsection \<open>\<^verbatim>\<open>get_charging_stations\<close>\<close>

record http_request =
  url :: string
  params :: "(string \<times> pyval) list"
  timeout :: int

text \<open>A response: its status code and what \<^verbatim>\<open>response.json()\<close> does when called.\<close>

datatype http_response = Response int "raised + pyval"

text \<open>
  The function returns a value or lets an exception through, and shows zero or more
  messages with \<^verbatim>\<open>st.error\<close>. \<open>requests_get\<close> is the network as the call sees it.
\<close>

definition stations_request :: "pyval \<Rightarrow> pyval \<Rightarrow> pyval \<Rightarrow> http_request" where
  "stations_request latitude longitude dst =
     \<lparr>url = ''https://api.openchargemap.io/v3/poi/'',
      params = [(''latitude'', latitude), (''longitude'', longitude),
                (''distance'', dst), (''maxresults'', PInt 10),
                (''compact'', PBool True), (''verbose'', PBool False)],
      timeout = 10\<rparr>"

definition get_charging_stations ::
  "(http_request \<Rightarrow> raised + http_response) \<Rightarrow> pyval \<Rightarrow> pyval \<Rightarrow> pyval
     \<Rightarrow> (raised + pyval) \<times> string list"
where
  "get_charging_stations requests_get latitude longitude dst =
     (case requests_get (stations_request latitude longitude dst) of
        Inl (Exception msg) \<Rightarrow> (Inr (PList []), [''Error fetching stations: '' @ msg])
      | Inl (NonException x) \<Rightarrow> (Inl (NonException x), [])
      | Inr (Response status_code body) \<Rightarrow>
          if status_code = 200 then
            (case body of
               Inr v \<Rightarrow> (Inr v, [])
             | Inl (Exception msg) \<Rightarrow> (Inr (PList []), [''Error fetching stations: '' @ msg])
             | Inl (NonException x) \<Rightarrow> (Inl (NonException x), []))
          else (Inr (PList []), []))"

subsection \<open>\<^verbatim>\<open>chat_with_openai\<close>\<close>

record chat_request =
  model :: string
  messages :: "(string \<times> string) list"
  max_tokens :: int
  temperature :: pyfloat

text \<open>
  A completion is the list of its choices, each given by its \<^verbatim>\<open>message.content\<close>,
  which the client types as an optional string. \<^verbatim>\<open>response.choices[0]\<close> on an empty
  list raises \<^verbatim>\<open>IndexError\<close> inside the \<^verbatim>\<open>try\<close>.
\<close>

datatype completion = Completion "string option list"

definition system_prompt :: "string \<Rightarrow> string" where
  "system_prompt context =
     ''You are an EV Charging Assistant. Help users find charging stations and answer EV-related questions.\<newline>''
     @ ''        \<newline>''
     @ ''Be friendly, concise, and helpful. If station data is provided, reference it naturally.\<newline>''
     @ ''\<newline>''
     @ ''Context: '' @ context"

text \<open>The arguments of \<^verbatim>\<open>client.chat.completions.create\<close>; the temperature is the double 0.7.\<close>

definition completion_request :: "string \<Rightarrow> string \<Rightarrow> chat_request" where
  "completion_request user_message context =
     \<lparr>model = ''gpt-3.5-turbo'',
      messages = [(''system'', system_prompt context), (''user'', user_message)],
      max_tokens = 500,
      temperature = Finite False 3152519739159347 (- 52)\<rparr>"

definition chat_with_openai ::
  "(chat_request \<Rightarrow> raised + completion) \<Rightarrow> string \<Rightarrow> string \<Rightarrow> raised + string option"
where
  "chat_with_openai create user_message context =
     (case create (completion_request user_message context) of
        Inl (Exception msg) \<Rightarrow> Inr (Some (''Sorry, I encountered an error: '' @ msg))
      | Inl (NonException x) \<Rightarrow> Inl (NonException x)
      | Inr (Completion choices) \<Rightarrow>
          (case choices of
             [] \<Rightarrow> Inr (Some (''Sorry, I encountered an error: '' @ ''list index out of range''))
           | content # _ \<Rightarrow> Inr content))"

section \<open>Reading a record and its score\<close>

text \<open>
  The \<^verbatim>\<open>AddressInfo.Distance\<close> and \<^verbatim>\<open>AddressInfo.Title\<close> of a record: \<open>None\<close> when the
  field is absent, or when there is no \<^verbatim>\<open>AddressInfo\<close> dictionary to hold it.
\<close>

definition address_field :: "string \<Rightarrow> pyval \<Rightarrow> pyval option" where
  "address_field name stn =
     (case stn of
        PDict kvs \<Rightarrow>
          (case map_of kvs ''AddressInfo'' of
             Some (PDict a) \<Rightarrow> map_of a name
           | _ \<Rightarrow> None)
      | _ \<Rightarrow> None)"

text \<open>
  The \<^verbatim>\<open>StatusType.IsOperational\<close> of a record: \<open>None\<close> when the flag is absent, or
  when there is no \<^verbatim>\<open>StatusType\<close> dictionary to hold it.
\<close>

definition operational_flag :: "pyval \<Rightarrow> pyval option" where
  "operational_flag stn =
     (case stn of
        PDict kvs \<Rightarrow>
          (case map_of kvs ''StatusType'' of
             Some (PDict st) \<Rightarrow> map_of st ''IsOperational''
           | _ \<Rightarrow> None)
      | _ \<Rightarrow> None)"

text \<open>
  The three parts of a score: what each block of the loop body adds to a score of 0
  (and 0 when the block raises, where the station has no score at all).
\<close>

definition points :: "pyerror + int \<Rightarrow> int" where
  "points r = (case r of Inr p \<Rightarrow> p | Inl e \<Rightarrow> 0)"

definition distance_points :: "pyval \<Rightarrow> int" where
  "distance_points stn =
     points (and_then (py_get stn ''AddressInfo'' (PDict [])) (\<lambda>addr.
             and_then (py_get addr ''Distance'' (PInt 999)) (\<lambda>dst.
               score_distance dst 0)))"

definition connection_points :: "(pyval \<Rightarrow> string) \<Rightarrow> pyval \<Rightarrow> int" where
  "connection_points rp stn =
     points (and_then (py_get stn ''Connections'' (PList [])) (\<lambda>connections.
             and_then (py_iter connections) (\<lambda>conns.
               score_connections rp conns 0)))"

definition availability_points :: "pyval \<Rightarrow> int" where
  "availability_points stn =
     points (and_then (py_get stn ''StatusType'' (PDict [])) (\<lambda>status.
             and_then (py_get status ''IsOperational'' PNone) (\<lambda>operational.
               Inr (if truthy operational then 5 else 0))))"

text \<open>The connections the loop of lines 63 to 66 runs over.\<close>

definition station_connections :: "pyval \<Rightarrow> pyerror + pyval list" where
  "station_connections stn =
     and_then (py_get stn ''Connections'' (PList [])) py_iter"

text \<open>
  The \<^verbatim>\<open>Level.Title\<close> of a connection: \<open>None\<close> when the title is absent, or when
  there is no \<^verbatim>\<open>Level\<close> dictionary to hold it.
\<close>

definition level_title :: "pyval \<Rightarrow> pyval option" where
  "level_title conn =
     (case conn of
        PDict kvs \<Rightarrow>
          (case map_of kvs ''Level'' of
             Some (PDict lv) \<Rightarrow> map_of lv ''Title''
           | _ \<Rightarrow> None)
      | _ \<Rightarrow> None)"

text \<open>A connection whose \<^verbatim>\<open>Level.Title\<close> is a string containing \<^verbatim>\<open>Fast\<close>.\<close>

definition fast_connection :: "pyval \<Rightarrow> bool" where
  "fast_connection conn =
     (case level_title conn of Some (PStr t) \<Rightarrow> str_contains t ''Fast'' | _ \<Rightarrow> False)"

text \<open>A connection whose \<^verbatim>\<open>Level.Title\<close> is absent or a string.\<close>

definition title_is_text :: "pyval \<Rightarrow> bool" where
  "title_is_text conn =
     (case level_title conn of None \<Rightarrow> True | Some (PStr t) \<Rightarrow> True | _ \<Rightarrow> False)"

text \<open>A top-level field of a record, \<open>None\<close> when absent.\<close>

fun record_field :: "string \<Rightarrow> pyval \<Rightarrow> pyval option" where
  "record_field k (PDict kvs) = map_of kvs k"
| "record_field k _ = None"

text \<open>The title a context line shows for an entry.\<close>

definition entry_title :: "(pyval \<Rightarrow> string) \<Rightarrow> scored_station \<Rightarrow> string" where
  "entry_title rp item =
     (case address_field ''Title'' (station item) of
        None \<Rightarrow> ''Unknown''
      | Some t \<Rightarrow> py_str rp t)"

subsection \<open>Records with fields absent or of their type\<close>

text \<open>
  A station record as the directory service documents it, every field optional: an
  absent key is \<open>None\<close> of \<open>map_of\<close>, a present one carries a value of its type. A
  distance is a float, or an integer that a double holds exactly.
\<close>

definition absent_or :: "(pyval \<Rightarrow> bool) \<Rightarrow> pyval option \<Rightarrow> bool" where
  "absent_or P field = (case field of None \<Rightarrow> True | Some v \<Rightarrow> P v)"

definition is_str :: "pyval \<Rightarrow> bool" where
  "is_str v = (case v of PStr s \<Rightarrow> True | _ \<Rightarrow> False)"

definition is_bool :: "pyval \<Rightarrow> bool" where
  "is_bool v = (case v of PBool b \<Rightarrow> True | _ \<Rightarrow> False)"

definition plain_number :: "pyval \<Rightarrow> bool" where
  "plain_number v = (case v of PFloat f \<Rightarrow> True | PInt n \<Rightarrow> \<bar>n\<bar> < 2 ^ 53 | _ \<Rightarrow> False)"

definition level_record :: "pyval \<Rightarrow> bool" where
  "level_record lv =
     (case lv of PDict kvs \<Rightarrow> absent_or is_str (map_of kvs ''Title'') | _ \<Rightarrow> False)"

definition connection_record :: "pyval \<Rightarrow> bool" where
  "connection_record conn =
     (case conn of PDict kvs \<Rightarrow> absent_or level_record (map_of kvs ''Level'') | _ \<Rightarrow> False)"

definition connection_list :: "pyval \<Rightarrow> bool" where
  "connection_list v = (case v of PList conns \<Rightarrow> list_all connection_record conns | _ \<Rightarrow> False)"

definition address_record :: "pyval \<Rightarrow> bool" where
  "address_record a =
     (case a of
        PDict kvs \<Rightarrow>
          absent_or plain_number (map_of kvs ''Distance'') \<and> absent_or is_str (map_of kvs ''Title'')
      | _ \<Rightarrow> False)"

definition status_record :: "pyval \<Rightarrow> bool" where
  "status_record st =
     (case st of PDict kvs \<Rightarrow> absent_or is_bool (map_of kvs ''IsOperational'') | _ \<Rightarrow> False)"

definition station_record :: "pyval \<Rightarrow> bool" where
  "station_record stn =
     (case stn of
        PDict kvs \<Rightarrow>
          absent_or address_record (map_of kvs ''AddressInfo'')
          \<and> absent_or connection_list (map_of kvs ''Connections'')
          \<and> absent_or status_record (map_of kvs ''StatusType'')
      | _ \<Rightarrow> False)"

subsection \<open>Lines of a text\<close>

text \<open>The lines of a text, each ended by a newline (the last one possibly unterminated).\<close>

fun split_lines :: "string \<Rightarrow> string \<Rightarrow> string list" where
  "split_lines cur [] = (if cur = [] then [] else [cur])"
| "split_lines cur (c # cs) =
     (if c = CHR ''\<newline>'' then cur # split_lines [] cs else split_lines (cur @ [c]) cs)"

subsection \<open>Sample data\<close>

text \<open>
  The two stations of the specification's scenario, at 3.25 km and 7.5 km, a third
  record with no field at all, variants of these, and stand-ins for the interpreter's
  \<^verbatim>\<open>repr\<close>, for a directory service answering 404 and for chat endpoints that fail,
  that answer, and that answer with no choice.
\<close>

definition station_A :: pyval where
  "station_A =
     PDict [(''AddressInfo'', PDict [(''Title'', PStr ''Alpha''),
                                     (''Distance'', PFloat (Finite False 13 (- 2)))]),
            (''Connections'', PList [PDict [(''Level'', PDict [(''Title'', PStr ''Fast DC'')])]]),
            (''StatusType'', PDict [(''IsOperational'', PBool True)])]"

definition station_B :: pyval where
  "station_B =
     PDict [(''AddressInfo'', PDict [(''Title'', PStr ''Beta''),
                                     (''Distance'', PFloat (Finite False 15 (- 1)))]),
            (''Connections'', PList []),
            (''StatusType'', PDict [(''IsOperational'', PBool False)])]"

definition station_bare :: pyval where
  "station_bare = PDict []"

definition repr_stub :: "pyval \<Rightarrow> string" where
  "repr_stub v = ''?''"

definition service_404 :: "http_request \<Rightarrow> raised + http_response" where
  "service_404 request = Inr (Response 404 (Inr (PDict [(''detail'', PStr ''Not Found'')])))"

definition endpoint_down :: "chat_request \<Rightarrow> raised + completion" where
  "endpoint_down request = Inl (Exception ''Connection error.'')"

definition endpoint_up :: "chat_request \<Rightarrow> raised + completion" where
  "endpoint_up request = Inr (Completion [Some ''CCS is a charging standard.''])"

definition station_two_fast :: pyval where
  "station_two_fast =
     PDict [(''Connections'',
             PList [PDict [(''Level'', PDict [(''Title'', PStr ''Fast DC'')])],
                    PDict [(''Level'', PDict [(''Title'', PStr ''fast'')])],
                    PDict [(''Level'', PDict [(''Comments'', PStr ''Fast'')])],
                    PDict [],
                    PDict [(''Level'', PDict [(''Title'', PStr ''Rapid and Fast'')])]])]"

definition station_A_closed :: pyval where
  "station_A_closed =
     PDict [(''AddressInfo'', PDict [(''Title'', PStr ''Alpha''),
                                     (''Distance'', PFloat (Finite False 13 (- 2)))]),
            (''Connections'', PList [PDict [(''Level'', PDict [(''Title'', PStr ''Fast DC'')])]]),
            (''StatusType'', PDict [(''IsOperational'', PBool False)])]"

definition station_open :: pyval where
  "station_open = PDict [(''StatusType'', PDict [(''IsOperational'', PBool True)])]"

definition station_partial :: pyval where
  "station_partial =
     PDict [(''AddressInfo'', PDict [(''Town'', PStr ''Gamma'')]),
            (''Connections'', PList [PDict [], PDict [(''Level'', PDict [])],
                                     PDict [(''Level'', PDict [(''ID'', PInt 3)])]]),
            (''StatusType'', PDict [(''Title'', PStr ''Unknown'')])]"

definition station_A_unflagged :: pyval where
  "station_A_unflagged =
     PDict [(''AddressInfo'', PDict [(''Title'', PStr ''Alpha''),
                                     (''Distance'', PFloat (Finite False 13 (- 2)))]),
            (''Connections'', PList [PDict [(''Level'', PDict [(''Title'', PStr ''Fast DC'')])]]),
            (''StatusType'', PDict [(''Title'', PStr ''Unknown'')])]"

definition endpoint_empty :: "chat_request \<Rightarrow> raised + completion" where
  "endpoint_empty request = Inr (Completion [])"

section \<open>Auxiliary facts\<close>

lemma and_then_Inr [simp]: "and_then (Inr x) f = f x"
  by (simp add: and_then_def)

lemma and_then_Inl [simp]: "and_then (Inl e) f = Inl e"
  by (simp add: and_then_def)

lemma and_then_eq_Inr: "and_then m f = Inr y \<longleftrightarrow> (\<exists>x. m = Inr x \<and> f x = Inr y)"
  by (cases m) simp_all

lemma py_get_eq_Inr:
  "py_get d k dflt = Inr v \<longleftrightarrow>
     (\<exists>kvs. d = PDict kvs \<and> v = (case map_of kvs k of None \<Rightarrow> dflt | Some w \<Rightarrow> w))"
  by (cases d) auto

lemma score_connections_shift:
  "score_connections rp conns sc = Inr r \<longleftrightarrow>
     (\<exists>p. score_connections rp conns 0 = Inr p \<and> r = sc + p)"
proof (induction conns arbitrary: sc r)
  case Nil
  show ?case by auto
next
  case (Cons conn conns)
  have step: "score_connections rp conns (0 + 8) = Inr r' \<longleftrightarrow>
      (\<exists>p. score_connections rp conns 0 = Inr p \<and> r' = 8 + p)" for r'
    using Cons.IH [of "0 + 8" r'] by simp
  show ?case
  proof (cases "py_get conn ''Level'' (PDict [])")
    case (Inl e)
    then show ?thesis by simp
  next
    case level: (Inr level)
    show ?thesis
    proof (cases "truthy level")
      case False
      with level show ?thesis using Cons.IH [of sc r] by simp
    next
      case True
      show ?thesis
      proof (cases "py_get level ''Title'' (PStr [])")
        case (Inl e)
        with level True show ?thesis by simp
      next
        case title: (Inr title)
        show ?thesis
        proof (cases "str_contains (py_str rp title) ''Fast''")
          case False
          with level True title show ?thesis using Cons.IH [of sc r] by simp
        next
          case fast: True
          have "score_connections rp (conn # conns) sc = score_connections rp conns (sc + 8)"
            using level True title fast by simp
          moreover have "score_connections rp (conn # conns) 0 = score_connections rp conns (0 + 8)"
            using level True title fast by simp
          ultimately show ?thesis
            using Cons.IH [of "sc + 8" r] step by auto
        qed
      qed
    qed
  qed
qed

lemma score_station_split:
  assumes "score_station rp stn = Inr entry"
  shows "score entry = distance_points stn + connection_points rp stn + availability_points stn"
    and "station entry = stn"
    and "distance entry = (case address_field ''Distance'' stn of None \<Rightarrow> PInt 999 | Some d \<Rightarrow> d)"
proof -
  from assms obtain addr dst sc1 connections conns sc2 status operational where
    addr: "py_get stn ''AddressInfo'' (PDict []) = Inr addr" and
    dst: "py_get addr ''Distance'' (PInt 999) = Inr dst" and
    sc1: "score_distance dst 0 = Inr sc1" and
    connections: "py_get stn ''Connections'' (PList []) = Inr connections" and
    conns: "py_iter connections = Inr conns" and
    sc2: "score_connections rp conns sc1 = Inr sc2" and
    status: "py_get stn ''StatusType'' (PDict []) = Inr status" and
    operational: "py_get status ''IsOperational'' PNone = Inr operational" and
    entry: "entry = \<lparr>station = stn, score = (if truthy operational then sc2 + 5 else sc2),
                      distance = dst\<rparr>"
    unfolding score_station_def and_then_eq_Inr by blast
  from sc2 obtain p where p: "score_connections rp conns 0 = Inr p" and sc2_eq: "sc2 = sc1 + p"
    using score_connections_shift by blast
  have d: "distance_points stn = sc1"
    by (simp add: distance_points_def points_def addr dst sc1)
  have c: "connection_points rp stn = p"
    by (simp add: connection_points_def points_def connections conns p)
  have a: "availability_points stn = (if truthy operational then 5 else 0)"
    by (simp add: availability_points_def points_def status operational)
  show "score entry = distance_points stn + connection_points rp stn + availability_points stn"
    by (simp add: entry d c a sc2_eq)
  show "station entry = stn"
    by (simp add: entry)
  from addr obtain kvs where kvs: "stn = PDict kvs"
    and addr_eq: "addr = (case map_of kvs ''AddressInfo'' of None \<Rightarrow> PDict [] | Some w \<Rightarrow> w)"
    unfolding py_get_eq_Inr by blast
  from dst obtain a where a: "addr = PDict a"
    and dst_eq: "dst = (case map_of a ''Distance'' of None \<Rightarrow> PInt 999 | Some w \<Rightarrow> w)"
    unfolding py_get_eq_Inr by blast
  show "distance entry = (case address_field ''Distance'' stn of None \<Rightarrow> PInt 999 | Some d \<Rightarrow> d)"
    using addr_eq a dst_eq
    by (auto simp: entry kvs address_field_def split: option.splits)
qed


lemma str_contains_sublist: "str_contains s needle \<longleftrightarrow> sublist needle s"
proof (induction s)
  case Nil
  show ?case by auto
next
  case (Cons c cs)
  have "take (length needle) (c # cs) = needle \<longleftrightarrow> prefix needle (c # cs)"
    by (metis append_eq_conv_conj prefixE prefixI append_take_drop_id)
  then show ?case
    using Cons.IH by (simp add: sublist_Cons_right)
qed

lemma score_distance_value:
  assumes "num_value d = Some v"
  shows "score_distance d sc = Inr (sc + (if v < 5 then 10 else if v < 10 then 5 else 0))"
proof (cases d)
  case (PInt n)
  with assms show ?thesis by (auto simp: score_distance_def)
next
  case (PBool b)
  with assms show ?thesis by (auto simp: score_distance_def)
next
  case (PFloat f)
  with assms show ?thesis by (cases f) (auto simp: score_distance_def)
qed (use assms in simp_all)

lemma distance_points_entry:
  assumes "score_station rp stn = Inr entry"
  shows "score_distance (distance entry) 0 = Inr (distance_points stn)"
proof -
  from assms obtain addr dst sc1 where
    addr: "py_get stn ''AddressInfo'' (PDict []) = Inr addr" and
    dst: "py_get addr ''Distance'' (PInt 999) = Inr dst" and
    sc1: "score_distance dst 0 = Inr sc1" and
    entry: "distance entry = dst"
    unfolding score_station_def and_then_eq_Inr by force
  show ?thesis
    by (simp add: distance_points_def points_def addr dst sc1 entry)
qed

lemma score_connections_count:
  assumes "score_connections rp conns sc = Inr r" and "\<forall>c\<in>set conns. title_is_text c"
  shows "r = sc + 8 * int (length (filter fast_connection conns))"
  using assms
proof (induction conns arbitrary: sc)
  case Nil
  then show ?case by simp
next
  case (Cons conn conns)
  from Cons.prems(1) obtain level where level: "py_get conn ''Level'' (PDict []) = Inr level"
    by (auto simp: and_then_eq_Inr)
  then obtain kvs where kvs: "conn = PDict kvs"
    and level_eq: "level = (case map_of kvs ''Level'' of None \<Rightarrow> PDict [] | Some w \<Rightarrow> w)"
    unfolding py_get_eq_Inr by blast
  have typed: "title_is_text conn" and rest: "\<forall>c\<in>set conns. title_is_text c"
    using Cons.prems(2) by simp_all
  show ?case
  proof (cases "truthy level")
    case False
    then have "\<not> fast_connection conn"
      using level_eq
      by (auto simp: fast_connection_def level_title_def kvs split: option.splits pyval.splits)
    moreover have "score_connections rp conns sc = Inr r"
      using Cons.prems(1) level False by simp
    ultimately show ?thesis
      using Cons.IH [of sc, OF _ rest] by simp
  next
    case True
    with Cons.prems(1) level obtain title where
      title: "py_get level ''Title'' (PStr []) = Inr title"
      by (auto simp: and_then_eq_Inr)
    then obtain lv where lv: "level = PDict lv"
      and title_eq: "title = (case map_of lv ''Title'' of None \<Rightarrow> PStr [] | Some w \<Rightarrow> w)"
      unfolding py_get_eq_Inr by blast
    have present: "map_of kvs ''Level'' = Some (PDict lv)"
      using level_eq lv True by (auto split: option.splits)
    then have lt: "level_title conn = map_of lv ''Title''"
      by (simp add: level_title_def kvs)
    have fast: "fast_connection conn \<longleftrightarrow> str_contains (py_str rp title) ''Fast''"
      using typed title_eq
      by (auto simp: fast_connection_def title_is_text_def lt split: option.splits pyval.splits)
    show ?thesis
    proof (cases "fast_connection conn")
      case True
      then have "score_connections rp conns (sc + 8) = Inr r"
        using Cons.prems(1) level \<open>truthy level\<close> title fast by simp
      then show ?thesis
        using Cons.IH [of "sc + 8", OF _ rest] True by simp
    next
      case False
      then have "score_connections rp conns sc = Inr r"
        using Cons.prems(1) level \<open>truthy level\<close> title fast by simp
      then show ?thesis
        using Cons.IH [of sc, OF _ rest] False by simp
    qed
  qed
qed

lemma score_all_eq_Inr:
  "score_all rp stns acc = Inr out \<longleftrightarrow>
     (\<exists>ys. map (score_station rp) stns = map Inr ys \<and> out = acc @ ys)"
proof (induction stns arbitrary: acc)
  case Nil
  show ?case by auto
next
  case (Cons stn stns)
  show ?case
  proof (cases "score_station rp stn")
    case (Inl e)
    then show ?thesis by (auto simp: map_eq_Cons_conv)
  next
    case (Inr entry)
    then show ?thesis
      using Cons.IH [of "acc @ [entry]"]
      by (auto simp: map_eq_Cons_conv Cons_eq_map_conv)
  qed
qed

lemma recommend_stations_eq_Inr:
  "recommend_stations rp stns p = Inr out \<longleftrightarrow>
     (\<exists>ys. map (score_station rp) stns = map Inr ys \<and> out = sort_reverse score ys)"
  by (auto simp: recommend_stations_def and_then_eq_Inr score_all_eq_Inr)

lemma sort_reverse_descending: "sorted_wrt (\<lambda>a b. key b \<le> key a) (sort_reverse key xs)"
proof -
  have "sorted (map key (sort_key key (rev xs)))"
    by simp
  then have "sorted_wrt (\<lambda>a b. key a \<le> key b) (sort_key key (rev xs))"
    by (simp add: sorted_wrt_map)
  then show ?thesis
    by (simp add: sort_reverse_def sorted_wrt_rev)
qed

lemma sort_reverse_stable:
  "filter (\<lambda>x. key x = k) (sort_reverse key xs) = filter (\<lambda>x. key x = k) xs"
  by (simp add: sort_reverse_def rev_filter [symmetric] sort_key_stable)

lemma mset_sort_reverse: "mset (sort_reverse key xs) = mset xs"
  by (simp add: sort_reverse_def)


lemma connection_points_entry:
  assumes "score_station rp stn = Inr entry"
  shows "\<exists>conns. station_connections stn = Inr conns
           \<and> score_connections rp conns 0 = Inr (connection_points rp stn)"
proof -
  from assms obtain sc1 connections conns sc2 where
    connections: "py_get stn ''Connections'' (PList []) = Inr connections" and
    conns: "py_iter connections = Inr conns" and
    sc2: "score_connections rp conns sc1 = Inr sc2"
    unfolding score_station_def and_then_eq_Inr by blast
  from sc2 obtain p where p: "score_connections rp conns 0 = Inr p"
    using score_connections_shift by blast
  have "connection_points rp stn = p"
    by (simp add: connection_points_def points_def connections conns p)
  moreover have "station_connections stn = Inr conns"
    by (simp add: station_connections_def connections conns)
  ultimately show ?thesis
    using p by blast
qed

lemma availability_points_entry:
  assumes "score_station rp stn = Inr entry"
  shows "availability_points stn =
           (case operational_flag stn of None \<Rightarrow> 0 | Some f \<Rightarrow> if truthy f then 5 else 0)"
proof -
  from assms obtain status operational where
    status: "py_get stn ''StatusType'' (PDict []) = Inr status" and
    operational: "py_get status ''IsOperational'' PNone = Inr operational"
    unfolding score_station_def and_then_eq_Inr by blast
  from status obtain kvs where kvs: "stn = PDict kvs"
    and status_eq: "status = (case map_of kvs ''StatusType'' of None \<Rightarrow> PDict [] | Some w \<Rightarrow> w)"
    unfolding py_get_eq_Inr by blast
  from operational obtain st where st: "status = PDict st"
    and op_eq: "operational = (case map_of st ''IsOperational'' of None \<Rightarrow> PNone | Some w \<Rightarrow> w)"
    unfolding py_get_eq_Inr by blast
  have "availability_points stn = (if truthy operational then 5 else 0)"
    by (simp add: availability_points_def points_def status operational)
  moreover have "operational_flag stn = map_of st ''IsOperational''"
    using status_eq st by (auto simp: operational_flag_def kvs split: option.splits)
  ultimately show ?thesis
    using op_eq by (auto split: option.splits)
qed

lemma same_field_points:
  assumes "map_of kvs1 ''AddressInfo'' = map_of kvs2 ''AddressInfo''"
    and "map_of kvs1 ''Connections'' = map_of kvs2 ''Connections''"
  shows "distance_points (PDict kvs1) = distance_points (PDict kvs2)"
    and "connection_points rp (PDict kvs1) = connection_points rp (PDict kvs2)"
  using assms by (simp_all add: distance_points_def connection_points_def)

lemma scored_entries:
  assumes "map (score_station rp) stns = map Inr entries"
  shows "map station entries = stns"
    and "\<forall>e\<in>set entries. score_station rp (station e) = Inr e"
  using assms
proof (induction stns arbitrary: entries)
  case Nil
  { case 1 then show ?case by simp }
  { case 2 then show ?case by simp }
next
  case (Cons stn stns)
  { case 1
    then obtain e es where es: "entries = e # es" and e: "score_station rp stn = Inr e"
      and rest: "map (score_station rp) stns = map Inr es"
      by (auto simp: Cons_eq_map_conv)
    then show ?case
      using Cons.IH(1) [OF rest] score_station_split(2) [OF e] by simp }
  { case 2
    then obtain e es where es: "entries = e # es" and e: "score_station rp stn = Inr e"
      and rest: "map (score_station rp) stns = map Inr es"
      by (auto simp: Cons_eq_map_conv)
    then show ?case
      using Cons.IH(2) [OF rest] score_station_split(2) [OF e] by simp }
qed

lemma context_loop_lines:
  assumes "context_loop rp i items ctx = Inr r"
  shows "\<exists>lines. length lines = length items
           \<and> (\<forall>k<length items. context_line rp (i + k) (items ! k) = Inr (lines ! k))
           \<and> r = ctx @ concat lines"
  using assms
proof (induction items arbitrary: i ctx)
  case Nil
  then show ?case by simp
next
  case (Cons item items)
  from Cons.prems obtain line where
    line: "context_line rp i item = Inr line" and
    rest: "context_loop rp (i + 1) items (ctx @ line) = Inr r"
    by (auto simp: and_then_eq_Inr)
  from Cons.IH [OF rest] obtain ls where
    len: "length ls = length items" and
    each: "\<forall>k<length items. context_line rp (i + 1 + k) (items ! k) = Inr (ls ! k)" and
    r: "r = (ctx @ line) @ concat ls"
    by blast
  have "\<forall>k<length (item # items).
          context_line rp (i + k) ((item # items) ! k) = Inr ((line # ls) ! k)"
  proof (intro allI impI)
    fix k
    assume "k < length (item # items)"
    then show "context_line rp (i + k) ((item # items) ! k) = Inr ((line # ls) ! k)"
      using line each by (cases k) simp_all
  qed
  moreover have "length (line # ls) = length (item # items)"
    using len by simp
  moreover have "r = ctx @ concat (line # ls)"
    using r by simp
  ultimately show ?case
    by blast
qed

lemma context_loop_succeeds:
  assumes "\<forall>item\<in>set items. \<forall>k. \<exists>line. context_line rp k item = Inr line"
  shows "\<exists>r. context_loop rp i items ctx = Inr r"
  using assms
proof (induction items arbitrary: i ctx)
  case Nil
  show ?case by simp
next
  case (Cons item items)
  from Cons.prems have "\<exists>line. context_line rp i item = Inr line"
    by simp
  then obtain line where line: "context_line rp i item = Inr line"
    by blast
  from Cons.prems have "\<forall>item\<in>set items. \<forall>k. \<exists>line. context_line rp k item = Inr line"
    by simp
  from Cons.IH [OF this] obtain r where "context_loop rp (i + 1) items (ctx @ line) = Inr r"
    by blast
  then show ?case
    using line by simp
qed

lemma context_line_form:
  assumes "context_line rp k item = Inr line"
  shows "\<exists>km. format_1f (distance item) = Inr km
           \<and> line = str_nat k @ ''. '' @ entry_title rp item @ '' - '' @ km @ ''km away\<newline>''"
proof -
  from assms obtain addr title km where
    addr: "py_get (station item) ''AddressInfo'' (PDict []) = Inr addr" and
    title: "py_get addr ''Title'' (PStr ''Unknown'') = Inr title" and
    km: "format_1f (distance item) = Inr km" and
    line: "line = str_nat k @ ''. '' @ py_str rp title @ '' - '' @ km @ ''km away\<newline>''"
    unfolding context_line_def and_then_eq_Inr by blast
  from addr obtain kvs where kvs: "station item = PDict kvs"
    and addr_eq: "addr = (case map_of kvs ''AddressInfo'' of None \<Rightarrow> PDict [] | Some w \<Rightarrow> w)"
    unfolding py_get_eq_Inr by blast
  from title obtain a where a: "addr = PDict a"
    and title_eq: "title = (case map_of a ''Title'' of None \<Rightarrow> PStr ''Unknown'' | Some w \<Rightarrow> w)"
    unfolding py_get_eq_Inr by blast
  have "entry_title rp item = py_str rp title"
    using addr_eq a title_eq
    by (auto simp: entry_title_def address_field_def kvs split: option.splits)
  with km line show ?thesis
    by simp
qed

lemma str_nat_digit: "n < 10 \<Longrightarrow> str_nat n = [''0123456789'' ! n]"
  by (simp add: str_nat.simps)

lemma str_nat_step:
  "10 \<le> n \<Longrightarrow> str_nat n = str_nat (n div 10) @ [''0123456789'' ! (n mod 10)]"
  by (subst str_nat.simps) simp

lemmas format_evals =
  tenths_def round_half_even_def float_of_int_def str_nat_digit str_nat_step

lemma station_record_fields:
  assumes "station_record stn"
  obtains kvs where "stn = PDict kvs"
    and "address_record (case map_of kvs ''AddressInfo'' of None \<Rightarrow> PDict [] | Some w \<Rightarrow> w)"
    and "connection_list (case map_of kvs ''Connections'' of None \<Rightarrow> PList [] | Some w \<Rightarrow> w)"
    and "status_record (case map_of kvs ''StatusType'' of None \<Rightarrow> PDict [] | Some w \<Rightarrow> w)"
proof -
  from assms obtain kvs where kvs: "stn = PDict kvs"
    by (cases stn) (simp_all add: station_record_def)
  have "address_record (case map_of kvs ''AddressInfo'' of None \<Rightarrow> PDict [] | Some w \<Rightarrow> w)"
    using assms
    by (auto simp: kvs station_record_def absent_or_def address_record_def split: option.splits)
  moreover have "connection_list (case map_of kvs ''Connections'' of None \<Rightarrow> PList [] | Some w \<Rightarrow> w)"
    using assms
    by (auto simp: kvs station_record_def absent_or_def connection_list_def split: option.splits)
  moreover have "status_record (case map_of kvs ''StatusType'' of None \<Rightarrow> PDict [] | Some w \<Rightarrow> w)"
    using assms
    by (auto simp: kvs station_record_def absent_or_def status_record_def split: option.splits)
  ultimately show thesis
    using that kvs by blast
qed

lemma address_record_fields:
  assumes "address_record addr"
  obtains a where "addr = PDict a"
    and "plain_number (case map_of a ''Distance'' of None \<Rightarrow> PInt 999 | Some w \<Rightarrow> w)"
    and "is_str (case map_of a ''Title'' of None \<Rightarrow> PStr ''Unknown'' | Some w \<Rightarrow> w)"
proof -
  from assms obtain a where a: "addr = PDict a"
    by (cases addr) (simp_all add: address_record_def)
  have "plain_number (case map_of a ''Distance'' of None \<Rightarrow> PInt 999 | Some w \<Rightarrow> w)"
    using assms
    by (auto simp: a address_record_def absent_or_def plain_number_def split: option.splits)
  moreover have "is_str (case map_of a ''Title'' of None \<Rightarrow> PStr ''Unknown'' | Some w \<Rightarrow> w)"
    using assms
    by (auto simp: a address_record_def absent_or_def is_str_def split: option.splits)
  ultimately show thesis
    using that a by blast
qed

lemma plain_number_scores:
  assumes "plain_number d"
  shows "\<exists>p. score_distance d 0 = Inr p \<and> 0 \<le> p"
proof (cases d)
  case (PFloat f)
  then show ?thesis
    by (cases f) (simp_all add: score_distance_def)
next
  case (PInt n)
  then show ?thesis
    by (simp add: score_distance_def)
qed (use assms in \<open>simp_all add: plain_number_def\<close>)

lemma plain_number_formats:
  assumes "plain_number d"
  shows "\<exists>km. format_1f d = Inr km"
proof (cases d)
  case (PFloat f)
  then show ?thesis by simp
next
  case (PInt n)
  with assms have "\<bar>n\<bar> < 2 ^ 53"
    by (simp add: plain_number_def)
  then have "nat \<bar>n\<bar> < 2 ^ 53"
    by (simp add: nat_less_iff)
  then have "float_of_int n = Inr (Finite (n < 0) (nat \<bar>n\<bar>) 0)"
    unfolding float_of_int_def Let_def by (rule if_P)
  with PInt show ?thesis by simp
qed (use assms in \<open>simp_all add: plain_number_def\<close>)

lemma connection_record_text: "connection_record conn \<Longrightarrow> title_is_text conn"
  by (auto simp: connection_record_def title_is_text_def level_title_def level_record_def
      absent_or_def is_str_def split: pyval.splits option.splits)

lemma connection_records_score:
  assumes "list_all connection_record conns"
  shows "\<exists>r. score_connections rp conns sc = Inr r"
  using assms
proof (induction conns arbitrary: sc)
  case Nil
  show ?case by simp
next
  case (Cons conn conns)
  then have conn: "connection_record conn" and rest: "list_all connection_record conns"
    by simp_all
  from conn obtain kvs where kvs: "conn = PDict kvs"
    by (cases conn) (simp_all add: connection_record_def)
  show ?case
  proof (cases "map_of kvs ''Level''")
    case None
    then show ?thesis
      using Cons.IH [OF rest] by (simp add: kvs)
  next
    case (Some lv)
    with conn have "level_record lv"
      by (simp add: connection_record_def kvs absent_or_def)
    then obtain l where l: "lv = PDict l"
      by (cases lv) (simp_all add: level_record_def)
    show ?thesis
      using Cons.IH [OF rest] Some by (simp add: kvs l)
  qed
qed

lemma station_record_scores:
  assumes "station_record stn"
  shows "\<exists>entry. score_station rp stn = Inr entry \<and> plain_number (distance entry)"
proof -
  from assms obtain kvs where kvs: "stn = PDict kvs"
    and addr: "address_record (case map_of kvs ''AddressInfo'' of None \<Rightarrow> PDict [] | Some w \<Rightarrow> w)"
    and conns: "connection_list (case map_of kvs ''Connections'' of None \<Rightarrow> PList [] | Some w \<Rightarrow> w)"
    and status: "status_record (case map_of kvs ''StatusType'' of None \<Rightarrow> PDict [] | Some w \<Rightarrow> w)"
    by (rule station_record_fields)
  from addr obtain a where
    a: "(case map_of kvs ''AddressInfo'' of None \<Rightarrow> PDict [] | Some w \<Rightarrow> w) = PDict a" and
    dst: "plain_number (case map_of a ''Distance'' of None \<Rightarrow> PInt 999 | Some w \<Rightarrow> w)"
    by (rule address_record_fields)
  from plain_number_scores [OF dst] obtain sc1 where
    sc1: "score_distance (case map_of a ''Distance'' of None \<Rightarrow> PInt 999 | Some w \<Rightarrow> w) 0 = Inr sc1"
    by blast
  from conns obtain cs where
    cs: "(case map_of kvs ''Connections'' of None \<Rightarrow> PList [] | Some w \<Rightarrow> w) = PList cs" and
    typed: "list_all connection_record cs"
    by (cases "case map_of kvs ''Connections'' of None \<Rightarrow> PList [] | Some w \<Rightarrow> w")
       (simp_all add: connection_list_def)
  from connection_records_score [OF typed] obtain sc2 where
    sc2: "score_connections rp cs sc1 = Inr sc2"
    by blast
  from status obtain st where
    st: "(case map_of kvs ''StatusType'' of None \<Rightarrow> PDict [] | Some w \<Rightarrow> w) = PDict st"
    by (cases "case map_of kvs ''StatusType'' of None \<Rightarrow> PDict [] | Some w \<Rightarrow> w")
       (simp_all add: status_record_def)
  show ?thesis
    using dst by (simp add: score_station_def kvs a sc1 cs sc2 st)
qed

lemma station_record_line:
  assumes "station_record stn" and "score_station rp stn = Inr entry"
  shows "\<exists>line. context_line rp k entry = Inr line"
proof -
  from assms(1) obtain kvs where kvs: "stn = PDict kvs"
    and addr: "address_record (case map_of kvs ''AddressInfo'' of None \<Rightarrow> PDict [] | Some w \<Rightarrow> w)"
    by (rule station_record_fields)
  from addr obtain a where
    a: "(case map_of kvs ''AddressInfo'' of None \<Rightarrow> PDict [] | Some w \<Rightarrow> w) = PDict a"
    by (rule address_record_fields)
  from station_record_scores [OF assms(1), of rp] assms(2) have "plain_number (distance entry)"
    by simp
  from plain_number_formats [OF this] obtain km where km: "format_1f (distance entry) = Inr km"
    by blast
  have "station entry = PDict kvs"
    using score_station_split(2) [OF assms(2)] kvs by simp
  then show ?thesis
    by (simp add: context_line_def a km)
qed


lemma score_connections_mono:
  assumes "score_connections rp conns sc = Inr r"
  shows "sc \<le> r"
proof -
  from assms obtain p where p: "score_connections rp conns 0 = Inr p" and r: "r = sc + p"
    using score_connections_shift by blast
  have "0 \<le> q" if "score_connections rp conns s = Inr q" and "0 \<le> s" for s q
    using that
  proof (induction conns arbitrary: s)
    case Nil
    then show ?case by simp
  next
    case (Cons conn conns)
    from Cons.prems(1) obtain s' where "score_connections rp conns s' = Inr q" and "s \<le> s'"
      by (auto simp: and_then_eq_Inr split: if_splits)
    with Cons.IH [of s'] Cons.prems(2) show ?case
      by simp
  qed
  from this [OF p] r show ?thesis
    by simp
qed

lemma all_scored:
  assumes "\<forall>x\<in>set xs. \<exists>y. f x = Inr y"
  shows "\<exists>ys. map f xs = map Inr ys"
  using assms
proof (induction xs)
  case Nil
  show ?case by simp
next
  case (Cons x xs)
  then obtain y ys where "f x = Inr y" and "map f xs = map Inr ys"
    by auto
  then have "map f (x # xs) = map Inr (y # ys)"
    by simp
  then show ?case
    by blast
qed

lemma station_records_ranked:
  assumes "list_all station_record stations"
  shows "\<exists>out ctx. recommend_stations rp stations preferred_type = Inr out
           \<and> build_context rp (Some out) = Inr ctx"
proof -
  have "\<forall>stn\<in>set stations. \<exists>entry. score_station rp stn = Inr entry"
  proof
    fix stn
    assume "stn \<in> set stations"
    then have "station_record stn"
      using assms by (simp add: list_all_iff)
    from station_record_scores [OF this] show "\<exists>entry. score_station rp stn = Inr entry"
      by blast
  qed
  from all_scored [OF this] obtain entries where
    entries: "map (score_station rp) stations = map Inr entries"
    by blast
  define out where "out = sort_reverse score entries"
  have ranked: "recommend_stations rp stations preferred_type = Inr out"
    unfolding recommend_stations_eq_Inr out_def using entries by blast
  have "set out = set entries"
    using mset_sort_reverse [of score entries] unfolding out_def by (metis set_mset_mset)
  have lines: "\<forall>item\<in>set (take 3 out). \<forall>k. \<exists>line. context_line rp k item = Inr line"
  proof (intro ballI allI)
    fix item k
    assume "item \<in> set (take 3 out)"
    then have item: "item \<in> set entries"
      using \<open>set out = set entries\<close> by (auto dest: in_set_takeD)
    then have scored: "score_station rp (station item) = Inr item"
      using scored_entries(2) [OF entries] by blast
    have "station item \<in> set stations"
      using item scored_entries(1) [OF entries] by force
    then have "station_record (station item)"
      using assms by (simp add: list_all_iff)
    from station_record_line [OF this scored]
    show "\<exists>line. context_line rp k item = Inr line" .
  qed
  from context_loop_succeeds [OF lines] obtain ctx where
    "context_loop rp 1 (take 3 out) ''Top 3 recommended stations:\<newline>'' = Inr ctx"
    by blast
  then have "\<exists>ctx. build_context rp (Some out) = Inr ctx"
    by (simp add: build_context_def)
  with ranked show ?thesis
    by blast
qed

subsection \<open>Rounding to one decimal\<close>

text \<open>
  The digits \<^verbatim>\<open>.1f\<close> prints are those of the multiple of a tenth nearest to the value:
  \<open>tenths m e\<close> is within half a unit of ten times \<open>m * 2^e\<close>.
\<close>

lemma round_half_even_nearest:
  assumes "0 < b"
  shows "\<bar>2 * int (round_half_even a b) * int b - 2 * int a\<bar> \<le> int b"
proof -
  define q r where "q = a div b" and "r = a mod b"
  have a: "int a = int q * int b + int r"
    unfolding q_def r_def by (metis div_mult_mod_eq of_nat_add of_nat_mult)
  have r: "r < b"
    unfolding r_def using assms by simp
  have step: "(int q + 1) * int b = int q * int b + int b"
    by (simp add: algebra_simps)
  consider "2 * r < b" | "b < 2 * r" | "2 * r = b" by linarith
  then show ?thesis
  proof cases
    case 1
    then have "round_half_even a b = q"
      by (simp add: round_half_even_def q_def r_def)
    with 1 a show ?thesis by simp
  next
    case 2
    then have "round_half_even a b = q + 1"
      by (simp add: round_half_even_def q_def r_def)
    then have "2 * int (round_half_even a b) * int b - 2 * int a = 2 * int b - 2 * int r"
      using a step by (simp add: algebra_simps)
    with 2 r show ?thesis by simp
  next
    case 3
    then have "round_half_even a b = q \<or> round_half_even a b = q + 1"
      by (simp add: round_half_even_def q_def r_def Let_def)
    then show ?thesis
    proof
      assume "round_half_even a b = q"
      with 3 a show ?thesis by simp
    next
      assume "round_half_even a b = q + 1"
      then have "2 * int (round_half_even a b) * int b - 2 * int a = 2 * int b - 2 * int r"
        using a step by (simp add: algebra_simps)
      with 3 show ?thesis by simp
    qed
  qed
qed

lemma tenths_nearest: "\<bar>real (tenths m e) - 10 * float_value False m e\<bar> \<le> 1 / 2"
proof (cases "0 \<le> e")
  case True
  then have "(2::real) powi e = 2 ^ nat e"
    by (simp add: power_int_def)
  with True show ?thesis
    by (simp add: tenths_def float_value_def)
next
  case False
  define k where "k = nat (- e)"
  have pow: "(2::real) powi e = 1 / 2 ^ k"
    using False by (simp add: power_int_def k_def field_simps)
  have t: "tenths m e = round_half_even (m * 10) (2 ^ k)"
    using False by (simp add: tenths_def k_def)
  have "\<bar>2 * int (tenths m e) * int (2 ^ k) - 2 * int (m * 10)\<bar> \<le> int (2 ^ k)"
    unfolding t by (rule round_half_even_nearest) simp
  then have "\<bar>2 * real (tenths m e) * 2 ^ k - 2 * (real m * 10)\<bar> \<le> 2 ^ k"
    by (metis (mono_tags, opaque_lifting) of_int_abs of_int_diff of_int_le_iff of_int_mult
        of_int_numeral of_int_of_nat_eq of_nat_mult of_nat_numeral of_nat_power)
  then have bound: "\<bar>2 * real (tenths m e) * 2 ^ k - 2 * (real m * 10)\<bar> / (2 * 2 ^ k)
      \<le> 2 ^ k / (2 * 2 ^ k)"
    by (rule divide_right_mono) simp
  have "real (tenths m e) - 10 * (real m / 2 ^ k)
      = (2 * real (tenths m e) * 2 ^ k - 2 * (real m * 10)) / (2 * 2 ^ k)"
    by (simp add: field_simps)
  then have "\<bar>real (tenths m e) - 10 * (real m / 2 ^ k)\<bar>
      = \<bar>2 * real (tenths m e) * 2 ^ k - 2 * (real m * 10)\<bar> / (2 * 2 ^ k)"
    by (simp only: abs_divide) simp
  with bound have "\<bar>real (tenths m e) - 10 * (real m / 2 ^ k)\<bar> \<le> 1 / 2"
    by simp
  then show ?thesis
    by (simp add: float_value_def pow)
qed

subsection \<open>Outside the record type\<close>

text \<open>
  A key present with the value \<^verbatim>\<open>None\<close> is not an absent key: \<^verbatim>\<open>get\<close> returns the
  \<^verbatim>\<open>None\<close>, not the default, and the next lookup, comparison or loop raises. Only for
  \<^verbatim>\<open>Level\<close> does the code test the value first. A distance that is \<^verbatim>\<open>nan\<close> or
  infinite is compared without error. An exception that does not derive from
  \<^verbatim>\<open>Exception\<close> passes through \<^verbatim>\<open>chat_with_openai\<close>; a transport failure of the
  directory service is shown and gives the empty list, a 200 gives the parsed body.
\<close>

lemma null_fields_raise:
  "score_station rp (PDict [(''AddressInfo'', PNone)]) = Inl AttributeError"
  "score_station rp (PDict [(''AddressInfo'', PDict [(''Distance'', PNone)])]) = Inl TypeError"
  "score_station rp (PDict [(''Connections'', PNone)]) = Inl TypeError"
  "score_station rp (PDict [(''StatusType'', PNone)]) = Inl AttributeError"
  by (simp_all add: score_station_def score_distance_def)

lemma null_level_tolerated:
  "score_station rp (PDict [(''Connections'', PList [PDict [(''Level'', PNone)]])])
     = Inr \<lparr>station = PDict [(''Connections'', PList [PDict [(''Level'', PNone)]])],
            score = 0, distance = PInt 999\<rparr>"
  by (simp add: score_station_def score_distance_def)

lemma unbounded_distance:
  "score_distance (PFloat NaN) sc = Inr sc"
  "score_distance (PFloat (Infinity False)) sc = Inr sc"
  "score_distance (PFloat (Infinity True)) sc = Inr (sc + 10)"
  by (simp_all add: score_distance_def)

lemma system_exit_passes:
  "create (completion_request user_message context) = Inl (NonException x) \<Longrightarrow>
     chat_with_openai create user_message context = Inl (NonException x)"
  by (simp add: chat_with_openai_def)

lemma fetch_failure_shown:
  "requests_get (stations_request latitude longitude dst) = Inl (Exception msg) \<Longrightarrow>
     get_charging_stations requests_get latitude longitude dst
       = (Inr (PList []), [''Error fetching stations: '' @ msg])"
  by (simp add: get_charging_stations_def)

lemma fetch_success:
  "requests_get (stations_request latitude longitude dst) = Inr (Response 200 (Inr v)) \<Longrightarrow>
     get_charging_stations requests_get latitude longitude dst = (Inr v, [])"
  by (simp add: get_charging_stations_def)

section \<open>The sample stations, scored\<close>

lemma station_A_scored:
  "score_station repr_stub station_A =
     Inr \<lparr>station = station_A, score = 23, distance = PFloat (Finite False 13 (- 2))\<rparr>"
  by (simp add: score_station_def station_A_def score_distance_def float_value_def)

lemma station_B_scored:
  "score_station repr_stub station_B =
     Inr \<lparr>station = station_B, score = 5, distance = PFloat (Finite False 15 (- 1))\<rparr>"
  by (simp add: score_station_def station_B_def score_distance_def float_value_def)

lemma station_bare_scored:
  "score_station repr_stub station_bare =
     Inr \<lparr>station = station_bare, score = 0, distance = PInt 999\<rparr>"
  by (simp add: score_station_def station_bare_def score_distance_def)

lemma station_A_closed_scored:
  "score_station repr_stub station_A_closed =
     Inr \<lparr>station = station_A_closed, score = 18, distance = PFloat (Finite False 13 (- 2))\<rparr>"
  by (simp add: score_station_def station_A_closed_def score_distance_def float_value_def)

lemma station_open_scored:
  "score_station repr_stub station_open =
     Inr \<lparr>station = station_open, score = 5, distance = PInt 999\<rparr>"
  by (simp add: score_station_def station_open_def score_distance_def)

lemma station_A_unflagged_scored:
  "score_station repr_stub station_A_unflagged =
     Inr \<lparr>station = station_A_unflagged, score = 18, distance = PFloat (Finite False 13 (- 2))\<rparr>"
  by (simp add: score_station_def station_A_unflagged_def score_distance_def float_value_def)

lemma ranked_sample:
  "recommend_stations repr_stub [station_open, station_bare, station_A, station_B] ''Fast'' =
     Inr [\<lparr>station = station_A, score = 23, distance = PFloat (Finite False 13 (- 2))\<rparr>,
          \<lparr>station = station_open, score = 5, distance = PInt 999\<rparr>,
          \<lparr>station = station_B, score = 5, distance = PFloat (Finite False 15 (- 1))\<rparr>,
          \<lparr>station = station_bare, score = 0, distance = PInt 999\<rparr>]"
  by (simp add: recommend_stations_def station_A_scored station_B_scored station_bare_scored
      station_open_scored sort_reverse_def)

lemma sample_formats:
  "format_1f (PFloat (Finite False 13 (- 2))) = Inr ''3.2''"
  "format_1f (PFloat (Finite False 15 (- 1))) = Inr ''7.5''"
  "format_1f (PInt 999) = Inr ''999.0''"
  by (simp_all add: format_evals)

lemma sample_context:
  "build_context repr_stub
     (Some [\<lparr>station = station_A, score = 23, distance = PFloat (Finite False 13 (- 2))\<rparr>,
            \<lparr>station = station_open, score = 5, distance = PInt 999\<rparr>,
            \<lparr>station = station_B, score = 5, distance = PFloat (Finite False 15 (- 1))\<rparr>,
            \<lparr>station = station_bare, score = 0, distance = PInt 999\<rparr>])
   = Inr (''Top 3 recommended stations:\<newline>''
          @ ''1. Alpha - 3.2km away\<newline>''
          @ ''2. Unknown - 999.0km away\<newline>''
          @ ''3. Beta - 7.5km away\<newline>'')"
  by (simp add: build_context_def context_line_def format_evals station_A_def station_B_def
      station_open_def)

section \<open>The claims\<close>

text \<open>
  C1. Whenever a station is scored, its score is the sum of a distance part, a
  connection part and an availability part, and the distance part is 10 when the
  record's \<^verbatim>\<open>AddressInfo.Distance\<close> is a number below 5, 5 when it is at least 5 and
  below 10, and 0 when it is 10 or more; when the field is absent the distance is taken
  as 999 and the part is 0.
\<close>

theorem distance_component:
  assumes "score_station rp stn = Inr entry"
  shows "score entry = distance_points stn + connection_points rp stn + availability_points stn
       \<and> (address_field ''Distance'' stn = None \<longrightarrow>
            distance entry = PInt 999 \<and> distance_points stn = 0)
       \<and> (\<forall>d v. address_field ''Distance'' stn = Some d \<and> num_value d = Some v \<longrightarrow>
            distance_points stn = (if v < 5 then 10 else if v < 10 then 5 else 0))"
proof (intro conjI allI impI)
  show "score entry = distance_points stn + connection_points rp stn + availability_points stn"
    by (rule score_station_split(1) [OF assms])
next
  assume absent: "address_field ''Distance'' stn = None"
  then show d: "distance entry = PInt 999"
    using score_station_split(3) [OF assms] by simp
  have "score_distance (PInt 999) 0 = Inr (distance_points stn)"
    using distance_points_entry [OF assms] d by simp
  then show "distance_points stn = 0"
    by (simp add: score_distance_def)
next
  fix d v
  assume "address_field ''Distance'' stn = Some d \<and> num_value d = Some v"
  then have d: "distance entry = d" and v: "num_value d = Some v"
    using score_station_split(3) [OF assms] by simp_all
  show "distance_points stn = (if v < 5 then 10 else if v < 10 then 5 else 0)"
    using distance_points_entry [OF assms] score_distance_value [OF v, of 0] d by simp
qed

theorem distance_component_witness:
  "score_station repr_stub station_A =
     Inr \<lparr>station = station_A, score = 23, distance = PFloat (Finite False 13 (- 2))\<rparr>
   \<and> address_field ''Distance'' station_A = Some (PFloat (Finite False 13 (- 2)))
   \<and> num_value (PFloat (Finite False 13 (- 2))) = Some (13 / 4)
   \<and> distance_points station_A = 10
   \<and> score_station repr_stub station_B =
     Inr \<lparr>station = station_B, score = 5, distance = PFloat (Finite False 15 (- 1))\<rparr>
   \<and> address_field ''Distance'' station_B = Some (PFloat (Finite False 15 (- 1)))
   \<and> num_value (PFloat (Finite False 15 (- 1))) = Some (15 / 2)
   \<and> distance_points station_B = 5
   \<and> score_station repr_stub station_bare =
     Inr \<lparr>station = station_bare, score = 0, distance = PInt 999\<rparr>
   \<and> address_field ''Distance'' station_bare = None
   \<and> distance_points station_bare = 0"
proof -
  have field_A: "address_field ''Distance'' station_A = Some (PFloat (Finite False 13 (- 2)))"
    by (simp add: address_field_def station_A_def)
  have val_A: "num_value (PFloat (Finite False 13 (- 2))) = Some (13 / 4)"
    by (simp add: float_value_def)
  from distance_component [OF station_A_scored] field_A val_A
  have "distance_points station_A =
          (if (13 / 4 :: real) < 5 then 10 else if (13 / 4 :: real) < 10 then 5 else 0)"
    by blast
  then have A: "distance_points station_A = 10"
    by simp
  have field_B: "address_field ''Distance'' station_B = Some (PFloat (Finite False 15 (- 1)))"
    by (simp add: address_field_def station_B_def)
  have val_B: "num_value (PFloat (Finite False 15 (- 1))) = Some (15 / 2)"
    by (simp add: float_value_def)
  from distance_component [OF station_B_scored] field_B val_B
  have "distance_points station_B =
          (if (15 / 2 :: real) < 5 then 10 else if (15 / 2 :: real) < 10 then 5 else 0)"
    by blast
  then have B: "distance_points station_B = 5"
    by simp
  have field_bare: "address_field ''Distance'' station_bare = None"
    by (simp add: address_field_def station_bare_def)
  from distance_component [OF station_bare_scored] field_bare
  have bare: "distance_points station_bare = 0"
    by blast
  show ?thesis
    using station_A_scored field_A val_A A station_B_scored field_B val_B B
      station_bare_scored field_bare bare
    by blast
qed

text \<open>
  C2. Take a station that is scored and whose connections carry a \<^verbatim>\<open>Level.Title\<close> that
  is a string or is absent. Its connection part is 8 times the number of connections
  whose title contains \<^verbatim>\<open>Fast\<close>, with no cap, and a connection with no \<^verbatim>\<open>Level\<close> or
  no \<^verbatim>\<open>Title\<close> is not among them.
\<close>

theorem fast_connections_component:
  assumes "score_station rp stn = Inr entry"
    and "station_connections stn = Inr conns"
    and "\<forall>conn\<in>set conns. title_is_text conn"
  shows "connection_points rp stn = 8 * int (length (filter fast_connection conns))
       \<and> score entry = distance_points stn + 8 * int (length (filter fast_connection conns))
                          + availability_points stn
       \<and> (\<forall>conn\<in>set conns. level_title conn = None \<longrightarrow> \<not> fast_connection conn)"
proof -
  from connection_points_entry [OF assms(1)] assms(2)
  have "score_connections rp conns 0 = Inr (connection_points rp stn)"
    by auto
  from score_connections_count [OF this assms(3)]
  have points: "connection_points rp stn = 8 * int (length (filter fast_connection conns))"
    by simp
  moreover have "score entry = distance_points stn + 8 * int (length (filter fast_connection conns))
                          + availability_points stn"
    using score_station_split(1) [OF assms(1)] points by simp
  moreover have "\<forall>conn\<in>set conns. level_title conn = None \<longrightarrow> \<not> fast_connection conn"
    by (simp add: fast_connection_def)
  ultimately show ?thesis
    by blast
qed

theorem fast_connections_component_witness:
  "score_station repr_stub station_two_fast =
     Inr \<lparr>station = station_two_fast, score = 16, distance = PInt 999\<rparr>
   \<and> connection_points repr_stub station_two_fast = 16
   \<and> level_title (PDict []) = None
   \<and> \<not> fast_connection (PDict [])"
proof -
  let ?conns = "[PDict [(''Level'', PDict [(''Title'', PStr ''Fast DC'')])],
                 PDict [(''Level'', PDict [(''Title'', PStr ''fast'')])],
                 PDict [(''Level'', PDict [(''Comments'', PStr ''Fast'')])],
                 PDict [],
                 PDict [(''Level'', PDict [(''Title'', PStr ''Rapid and Fast'')])]]"
  have scored: "score_station repr_stub station_two_fast =
     Inr \<lparr>station = station_two_fast, score = 16, distance = PInt 999\<rparr>"
    by (simp add: score_station_def station_two_fast_def score_distance_def)
  have conns: "station_connections station_two_fast = Inr ?conns"
    by (simp add: station_connections_def station_two_fast_def)
  have typed: "\<forall>conn\<in>set ?conns. title_is_text conn"
    by (simp add: title_is_text_def level_title_def)
  have count: "length (filter fast_connection ?conns) = 2"
    by (simp add: fast_connection_def level_title_def)
  have absent: "level_title (PDict []) = None"
    by (simp add: level_title_def)
  note component = fast_connections_component [OF scored conns typed]
  from component
  have "connection_points repr_stub station_two_fast = 8 * int (length (filter fast_connection ?conns))"
    by blast
  then have points: "connection_points repr_stub station_two_fast = 16"
    using count by simp
  from component have "\<forall>conn\<in>set ?conns. level_title conn = None \<longrightarrow> \<not> fast_connection conn"
    by blast
  then have "\<not> fast_connection (PDict [])"
    using absent by simp
  with scored points absent show ?thesis
    by blast
qed

text \<open>
  C3. Two scored records that agree on every field but \<^verbatim>\<open>StatusType\<close>, the first with
  \<^verbatim>\<open>IsOperational\<close> true and the second with the flag false or absent: the first scores
  exactly 5 more.
\<close>

theorem operational_bonus:
  assumes "\<forall>k. k \<noteq> ''StatusType'' \<longrightarrow> map_of kvs1 k = map_of kvs2 k"
    and "score_station rp (PDict kvs1) = Inr e1"
    and "score_station rp (PDict kvs2) = Inr e2"
    and "operational_flag (PDict kvs1) = Some (PBool True)"
    and "operational_flag (PDict kvs2) = Some (PBool False) \<or> operational_flag (PDict kvs2) = None"
  shows "score e1 = score e2 + 5"
proof -
  have addr: "map_of kvs1 ''AddressInfo'' = map_of kvs2 ''AddressInfo''"
    and conns: "map_of kvs1 ''Connections'' = map_of kvs2 ''Connections''"
    using assms(1) by simp_all
  have "distance_points (PDict kvs1) = distance_points (PDict kvs2)"
    and "connection_points rp (PDict kvs1) = connection_points rp (PDict kvs2)"
    by (rule same_field_points [OF addr conns])+
  moreover have "availability_points (PDict kvs1) = 5"
    using availability_points_entry [OF assms(2)] assms(4) by simp
  moreover have "availability_points (PDict kvs2) = 0"
    using availability_points_entry [OF assms(3)] assms(5) by auto
  ultimately show ?thesis
    using score_station_split(1) [OF assms(2)] score_station_split(1) [OF assms(3)] by simp
qed

theorem operational_bonus_witness:
  "score_station repr_stub station_A =
     Inr \<lparr>station = station_A, score = 23, distance = PFloat (Finite False 13 (- 2))\<rparr>
   \<and> score_station repr_stub station_A_closed =
     Inr \<lparr>station = station_A_closed, score = 18, distance = PFloat (Finite False 13 (- 2))\<rparr>
   \<and> score_station repr_stub station_A_unflagged =
     Inr \<lparr>station = station_A_unflagged, score = 18, distance = PFloat (Finite False 13 (- 2))\<rparr>
   \<and> operational_flag station_A = Some (PBool True)
   \<and> operational_flag station_A_closed = Some (PBool False)
   \<and> operational_flag station_A_unflagged = None
   \<and> score \<lparr>station = station_A, score = 23, distance = PFloat (Finite False 13 (- 2))\<rparr>
       = score \<lparr>station = station_A_closed, score = 18,
                 distance = PFloat (Finite False 13 (- 2))\<rparr> + 5
   \<and> score \<lparr>station = station_A, score = 23, distance = PFloat (Finite False 13 (- 2))\<rparr>
       = score \<lparr>station = station_A_unflagged, score = 18,
                 distance = PFloat (Finite False 13 (- 2))\<rparr> + 5"
proof -
  let ?shared = "[(''AddressInfo'', PDict [(''Title'', PStr ''Alpha''),
                                     (''Distance'', PFloat (Finite False 13 (- 2)))]),
            (''Connections'', PList [PDict [(''Level'', PDict [(''Title'', PStr ''Fast DC'')])]])]"
  let ?kvs1 = "?shared @ [(''StatusType'', PDict [(''IsOperational'', PBool True)])]"
  let ?kvs2 = "?shared @ [(''StatusType'', PDict [(''IsOperational'', PBool False)])]"
  let ?kvs3 = "?shared @ [(''StatusType'', PDict [(''Title'', PStr ''Unknown'')])]"
  let ?e1 = "\<lparr>station = station_A, score = 23, distance = PFloat (Finite False 13 (- 2))\<rparr>"
  let ?e2 = "\<lparr>station = station_A_closed, score = 18, distance = PFloat (Finite False 13 (- 2))\<rparr>"
  let ?e3 = "\<lparr>station = station_A_unflagged, score = 18, distance = PFloat (Finite False 13 (- 2))\<rparr>"
  have A: "station_A = PDict ?kvs1" and closed: "station_A_closed = PDict ?kvs2"
    and unflagged: "station_A_unflagged = PDict ?kvs3"
    by (simp_all add: station_A_def station_A_closed_def station_A_unflagged_def)
  have same2: "\<forall>k. k \<noteq> ''StatusType'' \<longrightarrow> map_of ?kvs1 k = map_of ?kvs2 k"
    by simp
  have same3: "\<forall>k. k \<noteq> ''StatusType'' \<longrightarrow> map_of ?kvs1 k = map_of ?kvs3 k"
    by simp
  have s1: "score_station repr_stub (PDict ?kvs1) = Inr ?e1"
    using station_A_scored unfolding A .
  have s2: "score_station repr_stub (PDict ?kvs2) = Inr ?e2"
    using station_A_closed_scored unfolding closed .
  have s3: "score_station repr_stub (PDict ?kvs3) = Inr ?e3"
    using station_A_unflagged_scored unfolding unflagged .
  have f1: "operational_flag (PDict ?kvs1) = Some (PBool True)"
    by (simp add: operational_flag_def)
  have f2: "operational_flag (PDict ?kvs2) = Some (PBool False)"
    by (simp add: operational_flag_def)
  have f3: "operational_flag (PDict ?kvs3) = None"
    by (simp add: operational_flag_def)
  have "score ?e1 = score ?e2 + 5"
    using operational_bonus [OF same2 s1 s2 f1] f2 by blast
  moreover have "score ?e1 = score ?e3 + 5"
    using operational_bonus [OF same3 s1 s3 f1] f3 by blast
  ultimately show ?thesis
    using s1 s2 s3 f1 f2 f3 unfolding A [symmetric] closed [symmetric] unflagged [symmetric]
    by blast
qed

text \<open>
  C4. Whenever \<^verbatim>\<open>recommend_stations\<close> returns, every station has been scored, the result
  is in descending order of score, and for every score the entries of the result with
  that score are the entries of the input with that score, in the order of the input.
\<close>

theorem ranking_sorted_stable:
  assumes "recommend_stations rp stations preferred_type = Inr out"
  shows "\<exists>entries. map (score_station rp) stations = map Inr entries
           \<and> sorted_wrt (\<lambda>a b. score b \<le> score a) out
           \<and> (\<forall>k. filter (\<lambda>e. score e = k) out = filter (\<lambda>e. score e = k) entries)"
proof -
  from assms obtain entries where
    entries: "map (score_station rp) stations = map Inr entries" and
    out: "out = sort_reverse score entries"
    unfolding recommend_stations_eq_Inr by blast
  have "sorted_wrt (\<lambda>a b. score b \<le> score a) out"
    unfolding out by (rule sort_reverse_descending)
  moreover have "\<forall>k. filter (\<lambda>e. score e = k) out = filter (\<lambda>e. score e = k) entries"
    unfolding out by (simp add: sort_reverse_stable)
  ultimately show ?thesis
    using entries by blast
qed

theorem ranking_sorted_stable_witness:
  "recommend_stations repr_stub [station_open, station_bare, station_A, station_B] ''Fast'' =
     Inr [\<lparr>station = station_A, score = 23, distance = PFloat (Finite False 13 (- 2))\<rparr>,
          \<lparr>station = station_open, score = 5, distance = PInt 999\<rparr>,
          \<lparr>station = station_B, score = 5, distance = PFloat (Finite False 15 (- 1))\<rparr>,
          \<lparr>station = station_bare, score = 0, distance = PInt 999\<rparr>]
   \<and> sorted_wrt (\<lambda>a b. score b \<le> score a)
        [\<lparr>station = station_A, score = 23, distance = PFloat (Finite False 13 (- 2))\<rparr>,
         \<lparr>station = station_open, score = 5, distance = PInt 999\<rparr>,
         \<lparr>station = station_B, score = 5, distance = PFloat (Finite False 15 (- 1))\<rparr>,
         \<lparr>station = station_bare, score = 0, distance = PInt 999\<rparr>]
   \<and> filter (\<lambda>e. score e = 5)
        [\<lparr>station = station_A, score = 23, distance = PFloat (Finite False 13 (- 2))\<rparr>,
         \<lparr>station = station_open, score = 5, distance = PInt 999\<rparr>,
         \<lparr>station = station_B, score = 5, distance = PFloat (Finite False 15 (- 1))\<rparr>,
         \<lparr>station = station_bare, score = 0, distance = PInt 999\<rparr>]
       = [\<lparr>station = station_open, score = 5, distance = PInt 999\<rparr>,
          \<lparr>station = station_B, score = 5, distance = PFloat (Finite False 15 (- 1))\<rparr>]"
proof -
  let ?out = "[\<lparr>station = station_A, score = 23, distance = PFloat (Finite False 13 (- 2))\<rparr>,
          \<lparr>station = station_open, score = 5, distance = PInt 999\<rparr>,
          \<lparr>station = station_B, score = 5, distance = PFloat (Finite False 15 (- 1))\<rparr>,
          \<lparr>station = station_bare, score = 0, distance = PInt 999\<rparr>]"
  have ranked: "recommend_stations repr_stub [station_open, station_bare, station_A, station_B] ''Fast''
      = Inr ?out"
    by (rule ranked_sample)
  from ranking_sorted_stable [OF ranked] obtain entries where
    entries: "map (score_station repr_stub) [station_open, station_bare, station_A, station_B]
                = map Inr entries" and
    sorted: "sorted_wrt (\<lambda>a b. score b \<le> score a) ?out" and
    stable: "\<forall>k. filter (\<lambda>e. score e = k) ?out = filter (\<lambda>e. score e = k) entries"
    by blast
  from entries have "entries =
      [\<lparr>station = station_open, score = 5, distance = PInt 999\<rparr>,
       \<lparr>station = station_bare, score = 0, distance = PInt 999\<rparr>,
       \<lparr>station = station_A, score = 23, distance = PFloat (Finite False 13 (- 2))\<rparr>,
       \<lparr>station = station_B, score = 5, distance = PFloat (Finite False 15 (- 1))\<rparr>]"
    by (auto simp: station_A_scored station_B_scored station_bare_scored station_open_scored
        Cons_eq_map_conv)
  with stable have "filter (\<lambda>e. score e = 5) ?out =
      [\<lparr>station = station_open, score = 5, distance = PInt 999\<rparr>,
       \<lparr>station = station_B, score = 5, distance = PFloat (Finite False 15 (- 1))\<rparr>]"
    by simp
  with ranked sorted show ?thesis
    by blast
qed

text \<open>
  C5 (as amended). The context is empty when the session holds no recommendations or an
  empty list. For a non-empty list, whenever the context is built it is the header line
  \<^verbatim>\<open>Top 3 recommended stations:\<close> followed by exactly \<open>min 3 (length recs)\<close> lines, each
  ended by a newline: line \<open>k + 1\<close> is the number \<open>k + 1\<close>, a dot, the title of entry
  \<open>k\<close> (\<^verbatim>\<open>Unknown\<close> when absent), a dash, the distance of the entry formatted with
  \<^verbatim>\<open>.1f\<close>, and \<^verbatim>\<open>km away\<close>.
\<close>

theorem context_block:
  "build_context rp None = Inr []
   \<and> build_context rp (Some []) = Inr []
   \<and> (\<forall>recs ctx. recs \<noteq> [] \<and> build_context rp (Some recs) = Inr ctx \<longrightarrow>
        (\<exists>lines. length lines = min 3 (length recs)
           \<and> ctx = ''Top 3 recommended stations:\<newline>'' @ concat lines
           \<and> (\<forall>k<length lines. \<exists>km. format_1f (distance (recs ! k)) = Inr km
                 \<and> lines ! k = str_nat (k + 1) @ ''. '' @ entry_title rp (recs ! k) @ '' - ''
                                  @ km @ ''km away\<newline>'')))"
proof (intro conjI allI impI)
  show "build_context rp None = Inr []"
    by (simp add: build_context_def)
  show "build_context rp (Some []) = Inr []"
    by (simp add: build_context_def)
next
  fix recs ctx
  assume "recs \<noteq> [] \<and> build_context rp (Some recs) = Inr ctx"
  then have "context_loop rp 1 (take 3 recs) ''Top 3 recommended stations:\<newline>'' = Inr ctx"
    by (auto simp: build_context_def)
  from context_loop_lines [OF this] obtain lines where
    len: "length lines = length (take 3 recs)" and
    each: "\<forall>k<length (take 3 recs). context_line rp (1 + k) (take 3 recs ! k) = Inr (lines ! k)" and
    ctx: "ctx = ''Top 3 recommended stations:\<newline>'' @ concat lines"
    by blast
  have len3: "length lines = min 3 (length recs)"
    using len by (simp add: min.commute)
  have "\<forall>k<length lines. \<exists>km. format_1f (distance (recs ! k)) = Inr km
          \<and> lines ! k = str_nat (k + 1) @ ''. '' @ entry_title rp (recs ! k) @ '' - ''
                          @ km @ ''km away\<newline>''"
  proof (intro allI impI)
    fix k
    assume k: "k < length lines"
    then have "context_line rp (1 + k) (recs ! k) = Inr (lines ! k)"
      using each len by simp
    from context_line_form [OF this]
    show "\<exists>km. format_1f (distance (recs ! k)) = Inr km
          \<and> lines ! k = str_nat (k + 1) @ ''. '' @ entry_title rp (recs ! k) @ '' - ''
                          @ km @ ''km away\<newline>''"
      by (simp add: add.commute)
  qed
  with len3 ctx show "\<exists>lines. length lines = min 3 (length recs)
           \<and> ctx = ''Top 3 recommended stations:\<newline>'' @ concat lines
           \<and> (\<forall>k<length lines. \<exists>km. format_1f (distance (recs ! k)) = Inr km
                 \<and> lines ! k = str_nat (k + 1) @ ''. '' @ entry_title rp (recs ! k) @ '' - ''
                                  @ km @ ''km away\<newline>'')"
    by blast
qed

theorem context_block_witness:
  "[\<lparr>station = station_A, score = 23, distance = PFloat (Finite False 13 (- 2))\<rparr>,
    \<lparr>station = station_open, score = 5, distance = PInt 999\<rparr>,
    \<lparr>station = station_B, score = 5, distance = PFloat (Finite False 15 (- 1))\<rparr>,
    \<lparr>station = station_bare, score = 0, distance = PInt 999\<rparr>] \<noteq> []
   \<and> build_context repr_stub
     (Some [\<lparr>station = station_A, score = 23, distance = PFloat (Finite False 13 (- 2))\<rparr>,
            \<lparr>station = station_open, score = 5, distance = PInt 999\<rparr>,
            \<lparr>station = station_B, score = 5, distance = PFloat (Finite False 15 (- 1))\<rparr>,
            \<lparr>station = station_bare, score = 0, distance = PInt 999\<rparr>])
     = Inr (''Top 3 recommended stations:\<newline>''
          @ ''1. Alpha - 3.2km away\<newline>''
          @ ''2. Unknown - 999.0km away\<newline>''
          @ ''3. Beta - 7.5km away\<newline>'')
   \<and> (\<exists>lines. length lines = 3
         \<and> ''Top 3 recommended stations:\<newline>''
            @ ''1. Alpha - 3.2km away\<newline>''
            @ ''2. Unknown - 999.0km away\<newline>''
            @ ''3. Beta - 7.5km away\<newline>''
           = ''Top 3 recommended stations:\<newline>'' @ concat lines)"
proof -
  let ?recs = "[\<lparr>station = station_A, score = 23, distance = PFloat (Finite False 13 (- 2))\<rparr>,
    \<lparr>station = station_open, score = 5, distance = PInt 999\<rparr>,
    \<lparr>station = station_B, score = 5, distance = PFloat (Finite False 15 (- 1))\<rparr>,
    \<lparr>station = station_bare, score = 0, distance = PInt 999\<rparr>]"
  let ?ctx = "''Top 3 recommended stations:\<newline>''
          @ ''1. Alpha - 3.2km away\<newline>''
          @ ''2. Unknown - 999.0km away\<newline>''
          @ ''3. Beta - 7.5km away\<newline>''"
  have nonempty: "?recs \<noteq> []"
    by simp
  have built: "build_context repr_stub (Some ?recs) = Inr ?ctx"
    by (rule sample_context)
  from context_block [of repr_stub] nonempty built
  have "\<exists>lines. length lines = min 3 (length ?recs)
           \<and> ?ctx = ''Top 3 recommended stations:\<newline>'' @ concat lines
           \<and> (\<forall>k<length lines. \<exists>km. format_1f (distance (?recs ! k)) = Inr km
                 \<and> lines ! k = str_nat (k + 1) @ ''. '' @ entry_title repr_stub (?recs ! k) @ '' - ''
                                  @ km @ ''km away\<newline>'')"
    by blast
  then obtain lines where len: "length lines = min 3 (length ?recs)"
    and eq: "?ctx = ''Top 3 recommended stations:\<newline>'' @ concat lines"
    by blast
  have "length lines = 3"
    using len by simp
  with eq have "\<exists>lines. length lines = 3
      \<and> ?ctx = ''Top 3 recommended stations:\<newline>'' @ concat lines"
    by blast
  with nonempty built show ?thesis
    by blast
qed

text \<open>
  C5 as stated, without the header line, fails: for a single ranked entry the
  context has two lines, not \<open>min 3 1 = 1\<close>, and the first is the header.
\<close>

theorem context_lines_counterexample:
  "build_context repr_stub
     (Some [\<lparr>station = station_A, score = 23, distance = PFloat (Finite False 13 (- 2))\<rparr>])
     = Inr ''Top 3 recommended stations:\<newline>1. Alpha - 3.2km away\<newline>''
   \<and> split_lines [] ''Top 3 recommended stations:\<newline>1. Alpha - 3.2km away\<newline>''
       = [''Top 3 recommended stations:'', ''1. Alpha - 3.2km away'']
   \<and> length (split_lines [] ''Top 3 recommended stations:\<newline>1. Alpha - 3.2km away\<newline>'')
       \<noteq> min 3 (length
            [\<lparr>station = station_A, score = 23, distance = PFloat (Finite False 13 (- 2))\<rparr>])"
  by (simp add: build_context_def context_line_def format_evals station_A_def)

text \<open>
  C6. When the request completes with a status code other than 200,
  \<^verbatim>\<open>get_charging_stations\<close> returns the empty list, raises nothing and shows no error.
\<close>

theorem non_200_gives_empty:
  assumes "requests_get (stations_request latitude longitude dst) = Inr (Response status_code body)"
    and "status_code \<noteq> 200"
  shows "get_charging_stations requests_get latitude longitude dst = (Inr (PList []), [])"
  using assms by (simp add: get_charging_stations_def)

theorem non_200_gives_empty_witness:
  "service_404 (stations_request (PFloat (Finite False 151 (- 2))) (PFloat (Finite True 979 (- 3))) (PInt 10))
     = Inr (Response 404 (Inr (PDict [(''detail'', PStr ''Not Found'')])))
   \<and> (404::int) \<noteq> 200
   \<and> get_charging_stations service_404
        (PFloat (Finite False 151 (- 2))) (PFloat (Finite True 979 (- 3))) (PInt 10)
     = (Inr (PList []), [])"
proof -
  have call: "service_404 (stations_request (PFloat (Finite False 151 (- 2)))
                 (PFloat (Finite True 979 (- 3))) (PInt 10))
     = Inr (Response 404 (Inr (PDict [(''detail'', PStr ''Not Found'')])))"
    by (simp add: service_404_def)
  have code: "(404::int) \<noteq> 200"
    by simp
  from non_200_gives_empty [where requests_get = service_404, OF call code] call code show ?thesis
    by blast
qed

text \<open>
  C7. When the completion call raises an exception, \<^verbatim>\<open>chat_with_openai\<close> returns the
  string \<^verbatim>\<open>Sorry, I encountered an error: \<close> followed by the text of the exception; so
  it does when the reply has no choice to index. On success it returns the content of
  the first choice.
\<close>

theorem chat_failure_is_a_reply:
  "(create (completion_request user_message context) = Inl (Exception msg) \<longrightarrow>
      chat_with_openai create user_message context
        = Inr (Some (''Sorry, I encountered an error: '' @ msg)))
   \<and> (create (completion_request user_message context) = Inr (Completion []) \<longrightarrow>
      chat_with_openai create user_message context
        = Inr (Some ''Sorry, I encountered an error: list index out of range''))
   \<and> (create (completion_request user_message context) = Inr (Completion (content # others)) \<longrightarrow>
      chat_with_openai create user_message context = Inr content)"
  by (simp add: chat_with_openai_def)

theorem chat_failure_is_a_reply_witness:
  "endpoint_down (completion_request ''What is CCS?'' []) = Inl (Exception ''Connection error.'')
   \<and> chat_with_openai endpoint_down ''What is CCS?'' []
       = Inr (Some ''Sorry, I encountered an error: Connection error.'')
   \<and> endpoint_empty (completion_request ''What is CCS?'' []) = Inr (Completion [])
   \<and> chat_with_openai endpoint_empty ''What is CCS?'' []
       = Inr (Some ''Sorry, I encountered an error: list index out of range'')
   \<and> endpoint_up (completion_request ''What is CCS?'' [])
       = Inr (Completion [Some ''CCS is a charging standard.''])
   \<and> chat_with_openai endpoint_up ''What is CCS?'' [] = Inr (Some ''CCS is a charging standard.'')"
proof -
  have down: "endpoint_down (completion_request ''What is CCS?'' []) = Inl (Exception ''Connection error.'')"
    by (simp add: endpoint_down_def)
  have empty: "endpoint_empty (completion_request ''What is CCS?'' []) = Inr (Completion [])"
    by (simp add: endpoint_empty_def)
  have up: "endpoint_up (completion_request ''What is CCS?'' [])
       = Inr (Completion [Some ''CCS is a charging standard.''])"
    by (simp add: endpoint_up_def)
  have "chat_with_openai endpoint_down ''What is CCS?'' []
       = Inr (Some (''Sorry, I encountered an error: '' @ ''Connection error.''))"
    using chat_failure_is_a_reply [of endpoint_down "''What is CCS?''" "[]" "''Connection error.''"] down
    by blast
  moreover have "chat_with_openai endpoint_empty ''What is CCS?'' []
       = Inr (Some ''Sorry, I encountered an error: list index out of range'')"
    using chat_failure_is_a_reply [of endpoint_empty "''What is CCS?''" "[]"] empty
    by blast
  moreover have "chat_with_openai endpoint_up ''What is CCS?'' [] = Inr (Some ''CCS is a charging standard.'')"
    using chat_failure_is_a_reply [of endpoint_up "''What is CCS?''" "[]" _ "Some ''CCS is a charging standard.''" "[]"] up
    by blast
  ultimately show ?thesis
    using down empty up by simp
qed

text \<open>
  C8. The result of \<^verbatim>\<open>recommend_stations\<close> is the same for any two values of
  \<^verbatim>\<open>preferred_type\<close>: scores and order depend on the stations only.
\<close>

theorem preferred_type_ignored:
  "recommend_stations rp stations preferred_type1 = recommend_stations rp stations preferred_type2"
  by (simp add: recommend_stations_def)

text \<open>
  C9. For station records whose fields are each absent or of their type, ranking and
  context building raise nothing. Every station is scored and its entry formats to a
  context line; the three parts of a score are never negative; with the distance absent
  it is taken as 999 and the distance part is 0, with the connections absent the loop
  runs over the empty list and the connection part is 0, with the operational flag
  absent the availability part is 0, and with the title absent the line shows
  \<^verbatim>\<open>Unknown\<close>.
\<close>

theorem absent_fields_never_raise:
  assumes "list_all station_record stations"
  shows "(\<exists>out ctx. recommend_stations rp stations preferred_type = Inr out
            \<and> build_context rp (Some out) = Inr ctx)
       \<and> (\<forall>stn\<in>set stations. \<exists>entry line.
            score_station rp stn = Inr entry \<and> context_line rp k entry = Inr line
            \<and> 0 \<le> distance_points stn \<and> 0 \<le> connection_points rp stn
            \<and> 0 \<le> availability_points stn
            \<and> (address_field ''Distance'' stn = None \<longrightarrow>
                  distance entry = PInt 999 \<and> distance_points stn = 0)
            \<and> (record_field ''Connections'' stn = None \<longrightarrow>
                  station_connections stn = Inr [] \<and> connection_points rp stn = 0)
            \<and> (operational_flag stn = None \<longrightarrow> availability_points stn = 0)
            \<and> (address_field ''Title'' stn = None \<longrightarrow> entry_title rp entry = ''Unknown''))"
proof (intro conjI ballI)
  show "\<exists>out ctx. recommend_stations rp stations preferred_type = Inr out
            \<and> build_context rp (Some out) = Inr ctx"
    by (rule station_records_ranked [OF assms])
next
  fix stn
  assume "stn \<in> set stations"
  then have typed: "station_record stn"
    using assms by (simp add: list_all_iff)
  from station_record_scores [OF typed] obtain entry where
    entry: "score_station rp stn = Inr entry"
    by blast
  from station_record_line [OF typed entry] obtain line where
    line: "context_line rp k entry = Inr line"
    by blast
  have dist: "score_distance (distance entry) 0 = Inr (distance_points stn)"
    by (rule distance_points_entry [OF entry])
  from connection_points_entry [OF entry] obtain conns where
    conns: "station_connections stn = Inr conns" and
    cpoints: "score_connections rp conns 0 = Inr (connection_points rp stn)"
    by blast
  have d0: "0 \<le> distance_points stn"
    using dist by (auto simp: score_distance_def and_then_eq_Inr split: if_splits)
  have c0: "0 \<le> connection_points rp stn"
    by (rule score_connections_mono [OF cpoints])
  have a0: "0 \<le> availability_points stn"
    using availability_points_entry [OF entry] by (simp split: option.splits)
  have d_absent: "address_field ''Distance'' stn = None \<longrightarrow>
                  distance entry = PInt 999 \<and> distance_points stn = 0"
  proof
    assume "address_field ''Distance'' stn = None"
    then have "distance entry = PInt 999"
      using score_station_split(3) [OF entry] by simp
    then show "distance entry = PInt 999 \<and> distance_points stn = 0"
      using dist by (simp add: score_distance_def)
  qed
  have c_absent: "record_field ''Connections'' stn = None \<longrightarrow>
                  station_connections stn = Inr [] \<and> connection_points rp stn = 0"
  proof
    assume absent: "record_field ''Connections'' stn = None"
    from typed obtain kvs where kvs: "stn = PDict kvs"
      by (rule station_record_fields)
    have "station_connections stn = Inr []"
      using absent by (simp add: station_connections_def kvs)
    with conns cpoints show "station_connections stn = Inr [] \<and> connection_points rp stn = 0"
      by simp
  qed
  have a_absent: "operational_flag stn = None \<longrightarrow> availability_points stn = 0"
    using availability_points_entry [OF entry] by simp
  have t_absent: "address_field ''Title'' stn = None \<longrightarrow> entry_title rp entry = ''Unknown''"
    using score_station_split(2) [OF entry] by (simp add: entry_title_def)
  show "\<exists>entry line.
            score_station rp stn = Inr entry \<and> context_line rp k entry = Inr line
            \<and> 0 \<le> distance_points stn \<and> 0 \<le> connection_points rp stn
            \<and> 0 \<le> availability_points stn
            \<and> (address_field ''Distance'' stn = None \<longrightarrow>
                  distance entry = PInt 999 \<and> distance_points stn = 0)
            \<and> (record_field ''Connections'' stn = None \<longrightarrow>
                  station_connections stn = Inr [] \<and> connection_points rp stn = 0)
            \<and> (operational_flag stn = None \<longrightarrow> availability_points stn = 0)
            \<and> (address_field ''Title'' stn = None \<longrightarrow> entry_title rp entry = ''Unknown'')"
    apply (rule exI [of _ entry])
    apply (rule exI [of _ line])
    using entry line d0 c0 a0 d_absent c_absent a_absent t_absent
    by blast
qed

theorem absent_fields_never_raise_witness:
  "list_all station_record [station_bare, station_partial, station_A]
   \<and> recommend_stations repr_stub [station_bare, station_partial, station_A] ''Fast''
       = Inr [\<lparr>station = station_A, score = 23, distance = PFloat (Finite False 13 (- 2))\<rparr>,
              \<lparr>station = station_bare, score = 0, distance = PInt 999\<rparr>,
              \<lparr>station = station_partial, score = 0, distance = PInt 999\<rparr>]
   \<and> build_context repr_stub
        (Some [\<lparr>station = station_A, score = 23, distance = PFloat (Finite False 13 (- 2))\<rparr>,
               \<lparr>station = station_bare, score = 0, distance = PInt 999\<rparr>,
               \<lparr>station = station_partial, score = 0, distance = PInt 999\<rparr>])
       = Inr (''Top 3 recommended stations:\<newline>''
              @ ''1. Alpha - 3.2km away\<newline>''
              @ ''2. Unknown - 999.0km away\<newline>''
              @ ''3. Unknown - 999.0km away\<newline>'')
   \<and> distance_points station_bare = 0
   \<and> connection_points repr_stub station_bare = 0
   \<and> availability_points station_bare = 0"
proof -
  have typed: "list_all station_record [station_bare, station_partial, station_A]"
    by (simp add: station_record_def station_bare_def station_partial_def station_A_def
        absent_or_def address_record_def connection_list_def connection_record_def
        level_record_def status_record_def is_str_def is_bool_def plain_number_def)
  have partial: "score_station repr_stub station_partial =
      Inr \<lparr>station = station_partial, score = 0, distance = PInt 999\<rparr>"
    by (simp add: score_station_def station_partial_def score_distance_def)
  have ranked: "recommend_stations repr_stub [station_bare, station_partial, station_A] ''Fast''
       = Inr [\<lparr>station = station_A, score = 23, distance = PFloat (Finite False 13 (- 2))\<rparr>,
              \<lparr>station = station_bare, score = 0, distance = PInt 999\<rparr>,
              \<lparr>station = station_partial, score = 0, distance = PInt 999\<rparr>]"
    by (simp add: recommend_stations_def station_A_scored station_bare_scored partial
        sort_reverse_def)
  have built: "build_context repr_stub
        (Some [\<lparr>station = station_A, score = 23, distance = PFloat (Finite False 13 (- 2))\<rparr>,
               \<lparr>station = station_bare, score = 0, distance = PInt 999\<rparr>,
               \<lparr>station = station_partial, score = 0, distance = PInt 999\<rparr>])
       = Inr (''Top 3 recommended stations:\<newline>''
              @ ''1. Alpha - 3.2km away\<newline>''
              @ ''2. Unknown - 999.0km away\<newline>''
              @ ''3. Unknown - 999.0km away\<newline>'')"
    by (simp add: build_context_def context_line_def format_evals station_A_def station_bare_def
        station_partial_def)
  have absent: "address_field ''Distance'' station_bare = None"
    "record_field ''Connections'' station_bare = None"
    "operational_flag station_bare = None"
    by (simp_all add: station_bare_def address_field_def operational_flag_def)
  from absent_fields_never_raise [OF typed, of repr_stub "''Fast''" 1]
  have "\<exists>entry line.
            score_station repr_stub station_bare = Inr entry \<and> context_line repr_stub 1 entry = Inr line
            \<and> 0 \<le> distance_points station_bare \<and> 0 \<le> connection_points repr_stub station_bare
            \<and> 0 \<le> availability_points station_bare
            \<and> (address_field ''Distance'' station_bare = None \<longrightarrow>
                  distance entry = PInt 999 \<and> distance_points station_bare = 0)
            \<and> (record_field ''Connections'' station_bare = None \<longrightarrow>
                  station_connections station_bare = Inr []
                  \<and> connection_points repr_stub station_bare = 0)
            \<and> (operational_flag station_bare = None \<longrightarrow> availability_points station_bare = 0)
            \<and> (address_field ''Title'' station_bare = None \<longrightarrow>
                  entry_title repr_stub entry = ''Unknown'')"
    by simp
  with absent have "distance_points station_bare = 0
      \<and> connection_points repr_stub station_bare = 0 \<and> availability_points station_bare = 0"
    by blast
  with typed ranked built show ?thesis
    by blast
qed

text \<open>
  C10. Whenever \<^verbatim>\<open>recommend_stations\<close> returns, the result has one entry for each input
  record: the records of the entries are the input records up to order, every entry is
  what its own record scores to, its distance is the record's \<^verbatim>\<open>AddressInfo.Distance\<close>
  (999 when absent), and the result is a permutation of the entries scored in order.
\<close>

theorem ranking_keeps_records:
  assumes "recommend_stations rp stations preferred_type = Inr out"
  shows "length out = length stations
       \<and> mset (map station out) = mset stations
       \<and> (\<forall>e\<in>set out. score_station rp (station e) = Inr e
             \<and> distance e = (case address_field ''Distance'' (station e) of
                                None \<Rightarrow> PInt 999 | Some d \<Rightarrow> d))
       \<and> (\<exists>entries. map (score_station rp) stations = map Inr entries
             \<and> mset out = mset entries)"
proof -
  from assms obtain entries where
    entries: "map (score_station rp) stations = map Inr entries" and
    out: "out = sort_reverse score entries"
    unfolding recommend_stations_eq_Inr by blast
  have perm: "mset out = mset entries"
    unfolding out by (rule mset_sort_reverse)
  have stations: "map station entries = stations"
    by (rule scored_entries(1) [OF entries])
  have "mset (map station out) = mset (map station entries)"
    using perm by (metis mset_map)
  then have records: "mset (map station out) = mset stations"
    using stations by simp
  then have len: "length out = length stations"
    by (metis length_map size_mset)
  have "set out = set entries"
    using perm by (metis set_mset_mset)
  then have each: "\<forall>e\<in>set out. score_station rp (station e) = Inr e"
    using scored_entries(2) [OF entries] by simp
  then have "\<forall>e\<in>set out. distance e = (case address_field ''Distance'' (station e) of
                                None \<Rightarrow> PInt 999 | Some d \<Rightarrow> d)"
    using score_station_split(3) by blast
  with len records each entries perm show ?thesis
    by blast
qed

theorem ranking_keeps_records_witness:
  "recommend_stations repr_stub [station_open, station_bare, station_A, station_B] ''Fast'' =
     Inr [\<lparr>station = station_A, score = 23, distance = PFloat (Finite False 13 (- 2))\<rparr>,
          \<lparr>station = station_open, score = 5, distance = PInt 999\<rparr>,
          \<lparr>station = station_B, score = 5, distance = PFloat (Finite False 15 (- 1))\<rparr>,
          \<lparr>station = station_bare, score = 0, distance = PInt 999\<rparr>]
   \<and> mset [station_A, station_open, station_B, station_bare]
       = mset [station_open, station_bare, station_A, station_B]"
proof -
  let ?out = "[\<lparr>station = station_A, score = 23, distance = PFloat (Finite False 13 (- 2))\<rparr>,
          \<lparr>station = station_open, score = 5, distance = PInt 999\<rparr>,
          \<lparr>station = station_B, score = 5, distance = PFloat (Finite False 15 (- 1))\<rparr>,
          \<lparr>station = station_bare, score = 0, distance = PInt 999\<rparr>]"
  have ranked: "recommend_stations repr_stub [station_open, station_bare, station_A, station_B] ''Fast''
      = Inr ?out"
    by (rule ranked_sample)
  from ranking_keeps_records [OF ranked]
  have "mset (map station ?out) = mset [station_open, station_bare, station_A, station_B]"
    by blast
  then have "mset [station_A, station_open, station_B, station_bare]
       = mset [station_open, station_bare, station_A, station_B]"
    by simp
  with ranked show ?thesis
    by blast
qed

end
